theory Spec2Isabelle
  imports Complex_Main
begin

section \<open>The time-step orchestrator: \<open>PyOM.run\<close> and \<open>PyOM.setup\<close> (pyom.py)\<close>

text \<open>
  Exceptions are values.  \<open>RuntimeError\<close>, \<open>NameError\<close>, \<open>ValueError\<close>, \<open>IndexError\<close>,
  \<open>NotImplementedError\<close> and \<open>ZeroDivisionError\<close> are the ones the listed code raises itself;
  \<open>Raised n\<close> stands for any exception coming out of a routine that is called but not listed.
\<close>

datatype exn =
    RuntimeError | NameError | ValueError | IndexError | NotImplementedError
  | ZeroDivisionError | Raised nat

text \<open>The arrays with three time levels that \<open>run\<close> hands to \<open>cyclic.setcyclic_x\<close>, and the
  tracer arrays written by the thermodynamics.\<close>

datatype field = F_u | F_v | F_tke | F_eke | F_E_iw | F_E_M2 | F_E_niw | F_temp | F_salt | F_rho

text \<open>
  Everything \<open>setup\<close> and \<open>run\<close> do besides the bookkeeping of the time pointers is a call into
  another module (\<open>momentum\<close>, \<open>thermodynamics\<close>, \<open>eke\<close>, \<open>tke\<close>, \<open>idemix\<close>, \<open>advection\<close>, \<open>cyclic\<close>,
  \<open>diagnostics\<close>, \<open>restart\<close>, \<open>numerics\<close>, \<open>external\<close>, \<open>isoneutral\<close>) or into a hook of the
  subclass.  One constructor per call site; \<open>Setcyclic_x f k\<close> is
  \<open>cyclic.setcyclic_x(self.f[:,:,:,k])\<close>.  \<open>Shift_time\<close> is the inline rotation of the time
  pointers at the end of the loop body; it is recorded in the trace like a call.
\<close>

datatype stage =
    Set_parameter | Allocate | Set_grid | Calc_grid | Set_coriolis | Calc_beta
  | Set_topography | Calc_topo | Calc_spectral_topo | Set_initial_conditions
  | Calc_initial_conditions | Set_forcing | Streamfunction_init | Init_diagnostics
  | Set_diagnostics | Init_eke | Check_isoneutral_slope_crit
  | Read_restart | Diag_averages_read_restart | Diag_energy_read_restart
  | Diag_over_read_restart | Diag_particles_read_restart
  | Set_idemix_parameter | Set_spectral_parameter | Set_eke_diffusivities
  | Set_tke_diffusivities | Momentum | Thermodynamics | Calculate_velocity_on_wgrid
  | Integrate_eke | Integrate_idemix_M2 | Integrate_idemix_niw | Integrate_idemix
  | Wave_interaction | Integrate_tke | Setcyclic_x field nat | Vertical_velocity
  | Np_flush | Diagnose | Shift_time | Panic_snap

text \<open>The attributes that \<open>set_default_settings\<close> initialises and the hook \<open>set_parameter\<close>
  may overwrite, as far as \<open>setup\<close> and \<open>run\<close> read them.  Times are floats in the source and
  reals here.\<close>

record settings =
  dt_tracer :: real
  runlen :: real
  snapint :: real
  enable_cyclic_x :: bool
  enable_hydrostatic :: bool
  enable_streamfunction :: bool
  enable_implicit_vert_friction :: bool
  enable_idemix :: bool
  enable_idemix_M2 :: bool
  enable_idemix_niw :: bool
  enable_tke :: bool
  enable_eke :: bool
  enable_diag_averages :: bool
  enable_diag_energy :: bool
  enable_diag_overturning :: bool
  enable_diag_particles :: bool

text \<open>
  The model object.  \<open>levels f k\<close> is the contents of time level \<open>k\<close> of the array \<open>f\<close>
  (\<open>self.f[:,:,:,k]\<close>), \<open>diag\<close> is all the other array data, \<open>is_bohrium\<close> is the module
  constant \<open>climate.is_bohrium\<close>, and \<open>trace\<close> is a ghost field: the stages started so far,
  oldest first.
\<close>

record ('a, 'b) pyom =
  taum1 :: nat
  tau :: nat
  taup1 :: nat
  itt :: int
  enditt :: int
  conf :: settings
  is_bohrium :: bool
  levels :: "field \<Rightarrow> nat \<Rightarrow> 'a"
  diag :: 'b
  trace :: "stage list"

text \<open>
  The called routines are not part of the listing.  A routine reads the whole model object and
  leaves new array data behind, whether it returns (\<open>None\<close>) or raises (\<open>Some e\<close>); the time
  pointers, the step counter and the settings are written by \<open>run\<close> and \<open>set_parameter\<close> only.
  The hook \<open>set_parameter\<close> returns the new settings.
\<close>

type_synonym ('a, 'b) routines =
  "stage \<Rightarrow> ('a, 'b) pyom \<Rightarrow> ((field \<Rightarrow> nat \<Rightarrow> 'a) \<times> 'b) \<times> exn option"

type_synonym ('a, 'b) hook = "('a, 'b) pyom \<Rightarrow> settings \<times> exn option"

definition default_settings :: settings where
  "default_settings =
     \<lparr> dt_tracer = 0, runlen = 0, snapint = 0,
       enable_cyclic_x = False, enable_hydrostatic = True, enable_streamfunction = False,
       enable_implicit_vert_friction = False, enable_idemix = False,
       enable_idemix_M2 = False, enable_idemix_niw = False, enable_tke = False,
       enable_eke = False, enable_diag_averages = False, enable_diag_energy = False,
       enable_diag_overturning = False, enable_diag_particles = False \<rparr>"

text \<open>\<open>PyOM.__init__\<close> with \<open>set_default_settings\<close>: the arrays do not exist yet, so their
  contents \<open>l\<close>, \<open>d\<close> are whatever \<open>allocate\<close> will make of them.\<close>

definition PyOM_init :: "bool \<Rightarrow> (field \<Rightarrow> nat \<Rightarrow> 'a) \<Rightarrow> 'b \<Rightarrow> ('a, 'b) pyom" where
  "PyOM_init boh l d =
     \<lparr> taum1 = 0, tau = 1, taup1 = 2, itt = 1, enditt = 1, conf = default_settings,
       is_bohrium = boh, levels = l, diag = d, trace = [] \<rparr>"

text \<open>One call: the stage is entered in the trace, the routine runs on the model object and
  its array data replace the old ones.\<close>

definition invoke :: "('a, 'b) routines \<Rightarrow> stage \<Rightarrow> ('a, 'b) pyom \<Rightarrow> ('a, 'b) pyom \<times> exn option" where
  "invoke ext c s =
     (case ext c s of
        ((l, d), r) \<Rightarrow> (s\<lparr>levels := l, diag := d, trace := trace s @ [c]\<rparr>, r))"

text \<open>A sequence of calls; the first exception ends it.\<close>

fun exec :: "('a, 'b) routines \<Rightarrow> stage list \<Rightarrow> ('a, 'b) pyom \<Rightarrow> ('a, 'b) pyom \<times> exn option" where
  "exec ext [] s = (s, None)"
| "exec ext (c # cs) s =
     (case invoke ext c s of
        (s', None) \<Rightarrow> exec ext cs s'
      | (s', Some e) \<Rightarrow> (s', Some e))"

text \<open>The calls of the ``main boundary exchange'' block, in source order.\<close>

definition main_exchange :: "settings \<Rightarrow> nat \<Rightarrow> stage list" where
  "main_exchange c k =
     [Setcyclic_x F_u k, Setcyclic_x F_v k]
     @ (if enable_tke c then [Setcyclic_x F_tke k] else [])
     @ (if enable_eke c then [Setcyclic_x F_eke k] else [])
     @ (if enable_idemix c then [Setcyclic_x F_E_iw k] else [])
     @ (if enable_idemix_M2 c then [Setcyclic_x F_E_M2 k] else [])
     @ (if enable_idemix_niw c then [Setcyclic_x F_E_niw k] else [])"

text \<open>The calls of the \<open>try\<close> block of the loop body up to \<open>diagnostics.diagnose\<close>, in source
  order; \<open>b\<close> is \<open>climate.is_bohrium\<close> and \<open>k\<close> is \<open>self.taup1\<close>.\<close>

definition timestep_stages :: "settings \<Rightarrow> bool \<Rightarrow> nat \<Rightarrow> stage list" where
  "timestep_stages c b k =
     [Set_forcing]
     @ (if enable_idemix c then [Set_idemix_parameter] else [])
     @ (if enable_idemix_M2 c \<or> enable_idemix_niw c then [Set_spectral_parameter] else [])
     @ [Set_eke_diffusivities, Set_tke_diffusivities, Momentum, Thermodynamics]
     @ (if enable_eke c \<or> enable_tke c \<or> enable_idemix c
        then [Calculate_velocity_on_wgrid] else [])
     @ (if enable_eke c then [Integrate_eke] else [])
     @ (if enable_idemix_M2 c then [Integrate_idemix_M2] else [])
     @ (if enable_idemix_niw c then [Integrate_idemix_niw] else [])
     @ (if enable_idemix c then [Integrate_idemix] else [])
     @ (if enable_idemix_M2 c \<or> enable_idemix_niw c then [Wave_interaction] else [])
     @ (if enable_tke c then [Integrate_tke] else [])
     @ (if enable_cyclic_x c then main_exchange c k else [])
     @ (if enable_hydrostatic c then [Vertical_velocity] else [])
     @ (if b then [Np_flush] else [])
     @ [Diagnose]"

text \<open>``shift time'': the three pointers are exchanged and the step counter is incremented.
  No array is touched.\<close>

definition shift_time :: "('a, 'b) pyom \<Rightarrow> ('a, 'b) pyom" where
  "shift_time s =
     s\<lparr>taum1 := tau s, tau := taup1 s, taup1 := taum1 s, itt := itt s + 1,
       trace := trace s @ [Shift_time]\<rparr>"

text \<open>The body of the \<open>while\<close> loop: the \<open>try\<close> block, and the bare \<open>except\<close> that calls
  \<open>diagnostics.panic_snap\<close> and re-raises.  An exception raised by \<open>panic_snap\<close> itself
  replaces the one being handled.\<close>

definition timestep :: "('a, 'b) routines \<Rightarrow> ('a, 'b) pyom \<Rightarrow> ('a, 'b) pyom \<times> exn option" where
  "timestep ext s =
     (case exec ext (timestep_stages (conf s) (is_bohrium s) (taup1 s)) s of
        (s1, None) \<Rightarrow> (shift_time s1, None)
      | (s1, Some e) \<Rightarrow>
          (case invoke ext Panic_snap s1 of
             (s2, None) \<Rightarrow> (s2, Some e)
           | (s2, Some e') \<Rightarrow> (s2, Some e')))"

text \<open>\<open>while self.itt < self.enditt\<close>.\<close>

function main_loop :: "('a, 'b) routines \<Rightarrow> ('a, 'b) pyom \<Rightarrow> ('a, 'b) pyom \<times> exn option" where
  "main_loop ext s =
     (if itt s < enditt s
      then (case timestep ext s of
              (s', None) \<Rightarrow> main_loop ext s'
            | (s', Some e) \<Rightarrow> (s', Some e))
      else (s, None))"
  by pat_completeness auto
termination
proof (relation "measure (\<lambda>(ext, s). nat (enditt s - itt s))")
  show "wf (measure (\<lambda>(ext :: ('a, 'b) routines, s :: ('a, 'b) pyom). nat (enditt s - itt s)))"
    by simp
next
  fix ext :: "('a, 'b) routines" and s x :: "('a, 'b) pyom" and y
  assume lt: "itt s < enditt s" and xy: "(x, y) = timestep ext s" and y: "y = None"
  have inv: "itt (fst (invoke ext c t)) = itt t \<and> enditt (fst (invoke ext c t)) = enditt t"
    for c and t :: "('a, 'b) pyom"
    by (simp add: invoke_def split: prod.splits)
  have ex: "itt (fst (exec ext cs t)) = itt t \<and> enditt (fst (exec ext cs t)) = enditt t"
    for cs and t :: "('a, 'b) pyom"
  proof (induction cs arbitrary: t)
    case Nil
    show ?case by simp
  next
    case (Cons c cs)
    obtain t' r where i: "invoke ext c t = (t', r)" by (cases "invoke ext c t")
    with inv [of c t] have t': "itt t' = itt t" "enditt t' = enditt t" by simp_all
    show ?case
    proof (cases r)
      case None
      with i Cons.IH [of t'] t' show ?thesis by simp
    next
      case (Some e)
      with i t' show ?thesis by simp
    qed
  qed
  obtain s1 r where e: "exec ext (timestep_stages (conf s) (is_bohrium s) (taup1 s)) s = (s1, r)"
    by (cases "exec ext (timestep_stages (conf s) (is_bohrium s) (taup1 s)) s")
  from ex [of "timestep_stages (conf s) (is_bohrium s) (taup1 s)" s] e
  have s1: "itt s1 = itt s" "enditt s1 = enditt s" by simp_all
  from xy y e have "r = None \<and> x = shift_time s1"
    by (auto simp: timestep_def split: option.splits prod.splits)
  with s1 have "itt x = itt s + 1" "enditt x = enditt s"
    by (simp_all add: shift_time_def)
  with lt show "((ext, x), (ext, s)) \<in> measure (\<lambda>(ext, s). nat (enditt s - itt s))"
    by simp
qed

declare main_loop.simps [simp del]

text \<open>The calls of \<open>setup\<close> after \<open>set_parameter\<close>, in source order.\<close>

definition setup_stages :: "settings \<Rightarrow> stage list" where
  "setup_stages c =
     [Allocate, Set_grid, Calc_grid, Set_coriolis, Calc_beta, Set_topography, Calc_topo,
      Calc_spectral_topo, Set_initial_conditions, Calc_initial_conditions, Set_forcing]
     @ (if enable_streamfunction c then [Streamfunction_init] else [])
     @ [Init_diagnostics, Set_diagnostics, Init_eke, Check_isoneutral_slope_crit]"

text \<open>\<open>PyOM.setup\<close> (the name \<open>setup\<close> is taken in Isabelle): the hook \<open>set_parameter\<close>, the initialisation calls, and the check of the
  configuration at the end.\<close>

definition pyom_setup :: "('a, 'b) routines \<Rightarrow> ('a, 'b) hook \<Rightarrow> ('a, 'b) pyom \<Rightarrow> ('a, 'b) pyom \<times> exn option" where
  "pyom_setup ext setp s =
     (case setp s of
        (c, Some e) \<Rightarrow> (s\<lparr>conf := c, trace := trace s @ [Set_parameter]\<rparr>, Some e)
      | (c, None) \<Rightarrow>
          (case exec ext (setup_stages c) (s\<lparr>conf := c, trace := trace s @ [Set_parameter]\<rparr>) of
             (s1, Some e) \<Rightarrow> (s1, Some e)
           | (s1, None) \<Rightarrow>
               if enable_tke (conf s1) \<and> \<not> enable_implicit_vert_friction (conf s1)
               then (s1, Some RuntimeError)
               else (s1, None)))"

text \<open>The restart calls of \<open>run\<close>, in source order.\<close>

definition restart_stages :: "settings \<Rightarrow> stage list" where
  "restart_stages c =
     [Read_restart]
     @ (if enable_diag_averages c then [Diag_averages_read_restart] else [])
     @ (if enable_diag_energy c then [Diag_energy_read_restart] else [])
     @ (if enable_diag_overturning c then [Diag_over_read_restart] else [])
     @ (if enable_diag_particles c then [Diag_particles_read_restart] else [])"

text \<open>Python's \<open>int\<close> of a float truncates towards zero.\<close>

definition py_int :: "real \<Rightarrow> int" where
  "py_int x = (if 0 \<le> x then \<lfloor>x\<rfloor> else \<lceil>x\<rceil>)"

text \<open>\<open>PyOM.run(snapint, runlen)\<close>.  The division by a zero time step raises before the loop
  is entered.  Timers and printing are left out.\<close>

definition run ::
  "('a, 'b) routines \<Rightarrow> ('a, 'b) hook \<Rightarrow> real \<Rightarrow> real \<Rightarrow> ('a, 'b) pyom \<Rightarrow> ('a, 'b) pyom \<times> exn option" where
  "run ext setp snapint' runlen' s =
     (case pyom_setup ext setp (s\<lparr>conf := (conf s)\<lparr>runlen := runlen', snapint := snapint'\<rparr>\<rparr>) of
        (s1, Some e) \<Rightarrow> (s1, Some e)
      | (s1, None) \<Rightarrow>
          (case exec ext (restart_stages (conf s1)) s1 of
             (s2, Some e) \<Rightarrow> (s2, Some e)
           | (s2, None) \<Rightarrow>
               if dt_tracer (conf s2) = 0 then (s2, Some ZeroDivisionError)
               else main_loop ext
                      (s2\<lparr>enditt := itt s2 + py_int (runlen (conf s2) / dt_tracer (conf s2))\<rparr>)))"

subsection \<open>Vocabulary of the specification\<close>

text \<open>
  The order of the stages of one step as the specification lists it: forcing; the closure
  parameters (IDEMIX, then EKE and TKE diffusivities); momentum; thermodynamics; velocity on
  the w grid; the closures EKE, internal waves, TKE; the cyclic exchange; (vertical velocity,
  flush and diagnostics, which the specification does not list); the rotation of the time
  levels.  Stages that belong to no step have no place in it.
\<close>

fun field_rank :: "field \<Rightarrow> nat" where
  "field_rank F_u = 0"
| "field_rank F_v = 1"
| "field_rank F_tke = 2"
| "field_rank F_eke = 3"
| "field_rank F_E_iw = 4"
| "field_rank F_E_M2 = 5"
| "field_rank F_E_niw = 6"
| "field_rank F_temp = 7"
| "field_rank F_salt = 8"
| "field_rank F_rho = 9"

fun rank :: "stage \<Rightarrow> nat option" where
  "rank Set_forcing = Some 0"
| "rank Set_idemix_parameter = Some 1"
| "rank Set_spectral_parameter = Some 2"
| "rank Set_eke_diffusivities = Some 3"
| "rank Set_tke_diffusivities = Some 4"
| "rank Momentum = Some 5"
| "rank Thermodynamics = Some 6"
| "rank Calculate_velocity_on_wgrid = Some 7"
| "rank Integrate_eke = Some 8"
| "rank Integrate_idemix_M2 = Some 9"
| "rank Integrate_idemix_niw = Some 10"
| "rank Integrate_idemix = Some 11"
| "rank Wave_interaction = Some 12"
| "rank Integrate_tke = Some 13"
| "rank (Setcyclic_x f k) = Some (14 + field_rank f)"
| "rank Vertical_velocity = Some 24"
| "rank Np_flush = Some 25"
| "rank Diagnose = Some 26"
| "rank Shift_time = Some 27"
| "rank _ = None"

definition before :: "stage \<Rightarrow> stage \<Rightarrow> bool" where
  "before a b = (case (rank a, rank b) of (Some i, Some j) \<Rightarrow> i < j | _ \<Rightarrow> False)"

text \<open>\<open>precedes a b tr\<close>: both stages occur in \<open>tr\<close>, each once, \<open>a\<close> first.\<close>

definition precedes :: "stage \<Rightarrow> stage \<Rightarrow> stage list \<Rightarrow> bool" where
  "precedes a b tr =
     (\<exists>xs ys zs. tr = xs @ [a] @ ys @ [b] @ zs \<and> a \<notin> set (xs @ ys @ zs) \<and> b \<notin> set (xs @ ys @ zs))"

text \<open>A trace of one iteration is in the order of the specification when its stages follow
  one another in that order, the unconditional stages are all there, and the conditional
  ones are there exactly under their switches.\<close>

definition in_spec_order :: "settings \<Rightarrow> stage list \<Rightarrow> bool" where
  "in_spec_order c tr =
     (sorted_wrt before tr
      \<and> Set_forcing \<in> set tr \<and> Set_eke_diffusivities \<in> set tr \<and> Set_tke_diffusivities \<in> set tr
      \<and> Momentum \<in> set tr \<and> Thermodynamics \<in> set tr \<and> Shift_time \<in> set tr
      \<and> (Set_idemix_parameter \<in> set tr) = enable_idemix c
      \<and> (Calculate_velocity_on_wgrid \<in> set tr) = (enable_eke c \<or> enable_tke c \<or> enable_idemix c)
      \<and> (Integrate_eke \<in> set tr) = enable_eke c
      \<and> (Integrate_idemix \<in> set tr) = enable_idemix c
      \<and> (Integrate_tke \<in> set tr) = enable_tke c
      \<and> (\<exists>f k. Setcyclic_x f k \<in> set tr) = enable_cyclic_x c)"

text \<open>The arrays handed to \<open>setcyclic_x\<close> in a trace, with their time level.\<close>

fun exchanged :: "stage list \<Rightarrow> (field \<times> nat) list" where
  "exchanged [] = []"
| "exchanged (Setcyclic_x f k # tr) = (f, k) # exchanged tr"
| "exchanged (c # tr) = exchanged tr"

text \<open>Modelled from the spec: the solver modules are not listed, so which arrays a stage
  writes at the next time level is taken from the specification (4.1, 4.5): the momentum solver
  produces the next velocity, the tracer solver the next temperature, salinity and density, and
  each closure its own energy.\<close>

fun written_next :: "stage \<Rightarrow> field list" where
  "written_next Momentum = [F_u, F_v]"
| "written_next Thermodynamics = [F_temp, F_salt, F_rho]"
| "written_next Integrate_eke = [F_eke]"
| "written_next Integrate_idemix_M2 = [F_E_M2]"
| "written_next Integrate_idemix_niw = [F_E_niw]"
| "written_next Integrate_idemix = [F_E_iw]"
| "written_next Integrate_tke = [F_tke]"
| "written_next _ = []"

text \<open>Modelled from the spec: the solver modules are not listed; by the specification (3, 5)
  a routine called during a step writes the next time level of an array and no other.\<close>

definition writes_next_only :: "('a, 'b) routines \<Rightarrow> bool" where
  "writes_next_only ext =
     (\<forall>c s f k. k \<noteq> taup1 s \<longrightarrow> fst (fst (ext c s)) f k = levels s f k)"

text \<open>The model object after \<open>n\<close> completed iterations of the loop body, if none of them
  raised.\<close>

fun after_steps :: "('a, 'b) routines \<Rightarrow> nat \<Rightarrow> ('a, 'b) pyom \<Rightarrow> ('a, 'b) pyom option" where
  "after_steps ext 0 s = Some s"
| "after_steps ext (Suc n) s =
     (case after_steps ext n s of
        None \<Rightarrow> None
      | Some t \<Rightarrow> (case timestep ext t of (t', None) \<Rightarrow> Some t' | (t', Some e) \<Rightarrow> None))"

text \<open>The three time pointers are the numbers 0, 1, 2 in some order.\<close>

definition pointers_ok :: "('a, 'b) pyom \<Rightarrow> bool" where
  "pointers_ok s =
     (distinct [taum1 s, tau s, taup1 s] \<and> set [taum1 s, tau s, taup1 s] = {0, 1, 2})"

text \<open>The statement ``the exchange of a step covers every array written in that step, at
  the time level \<open>k\<close>'', for the trace \<open>tr\<close> of the step.\<close>

definition exchange_covers_written :: "stage list \<Rightarrow> nat \<Rightarrow> bool" where
  "exchange_covers_written tr k =
     (\<forall>f \<in> set (concat (map written_next tr)). (f, k) \<in> set (exchanged tr))"

text \<open>Auxiliary: a list of stages in the order of the specification whose places all lie
  in \<open>[lo, hi)\<close>.\<close>

definition ranked :: "nat \<Rightarrow> nat \<Rightarrow> stage list \<Rightarrow> bool" where
  "ranked lo hi xs =
     (sorted_wrt before xs \<and> (\<forall>x\<in>set xs. \<exists>r. rank x = Some r \<and> lo \<le> r \<and> r < hi))"

subsection \<open>Sample runs\<close>

text \<open>Routines that all return and leave the arrays alone; routines of which one raises
  \<open>Raised 1\<close> in a given step; routines that each write the step number into the next time
  level of \<open>u\<close>; a \<open>set_parameter\<close> hook that sets the given switches and a time
  step of one second.\<close>

definition idle :: "('a, 'b) routines" where
  "idle c s = ((levels s, diag s), None)"


definition stamping :: "(int, 'b) routines" where
  "stamping c s =
     (((levels s)(F_u := (levels s F_u)(taup1 s := itt s)), diag s), None)"

definition sample_hook :: "bool \<Rightarrow> bool \<Rightarrow> bool \<Rightarrow> ('a, 'b) hook" where
  "sample_hook cyc tk impl s =
     ((conf s)\<lparr>dt_tracer := 1, enable_cyclic_x := cyc, enable_tke := tk,
              enable_implicit_vert_friction := impl\<rparr>, None)"

definition sample_pyom :: "(int, unit) pyom" where
  "sample_pyom = PyOM_init False (\<lambda>f k. 0) ()"

section \<open>The global one-degree setup (global_one_degree.py)\<close>

text \<open>
  Arrays are functions from indices to values; floats are reals, so rounding, infinities and
  NaN are not modelled.  An array of shape \<open>(nx+4, ny+4, \<dots>)\<close> is read at the indices of its
  shape only.  \<open>kbot\<close> is an integer array.
\<close>

type_synonym arr1 = "nat \<Rightarrow> real"
type_synonym arr2 = "nat \<Rightarrow> nat \<Rightarrow> real"
type_synonym arr3 = "nat \<Rightarrow> nat \<Rightarrow> nat \<Rightarrow> real"
type_synonym arr4 = "nat \<Rightarrow> nat \<Rightarrow> nat \<Rightarrow> nat \<Rightarrow> real"

text \<open>The contents of the binary files of \<open>DATA_FILES\<close>, already reshaped as \<open>_read_binary\<close>
  returns them: \<open>(nx, ny, nz)\<close> for temperature and salt, \<open>(nx, ny, 12)\<close> for the monthly
  fields, \<open>(nx, ny)\<close> for bathymetry and the energies.  The existence of the files is checked in
  \<open>__init__\<close>; a file of the wrong size is not modelled.\<close>

record data_files =
  temperature_data :: arr3
  salt_data :: arr3
  tau_x_data :: arr3
  tau_y_data :: arr3
  q_net_data :: arr3
  dqdt_data :: arr3
  swf_data :: arr3
  sst_data :: arr3
  sss_data :: arr3
  bathymetry_data :: arr2
  tidal_energy_file :: arr2
  wind_energy_file :: arr2

text \<open>The state that \<open>set_initial_conditions\<close> and \<open>set_topography\<close> read and write: the
  attributes of the main module \<open>m\<close> (prefix \<open>m_\<close>), of the IDEMIX module \<open>idm\<close> (prefix \<open>idm_\<close>)
  and of the setup object itself.\<close>

record one_degree =
  m_nx :: nat
  m_ny :: nat
  m_nz :: nat
  m_np :: nat
  m_rho_0 :: real
  m_enable_idemix :: bool
  m_enable_idemix_M2 :: bool
  m_enable_idemix_niw :: bool
  m_temp :: arr4
  m_salt :: arr4
  m_maskT :: arr3
  m_maskW :: arr3
  m_kbot :: "nat \<Rightarrow> nat \<Rightarrow> int"
  m_forc_iw_bottom :: arr2
  m_forc_iw_surface :: arr2
  m_coriolis_t :: arr2
  m_zw :: arr1
  m_dzt :: arr1
  idm_forc_M2 :: arr3
  idm_forc_niw :: arr3
  idm_omega_niw :: arr2
  taux :: arr3
  tauy :: arr3
  qnet :: arr3
  qnec :: arr3
  qsol :: arr3
  t_star :: arr3
  s_star :: arr3
  divpen_shortwave :: arr1

text \<open>\<open>a[2:-2, 2:-2]\<close> of an array with \<open>nx+4\<close> rows and \<open>ny+4\<close> columns: the cells that are not
  in the halo.\<close>

definition interior :: "nat \<Rightarrow> nat \<Rightarrow> nat \<Rightarrow> nat \<Rightarrow> bool" where
  "interior nx ny i j = (2 \<le> i \<and> i < nx + 2 \<and> 2 \<le> j \<and> j < ny + 2)"

text \<open>\<open>a[2:-2, 2:-2] = v\<close> for a two-dimensional array, \<open>a[2:-2, 2:-2, lo:hi] = v\<close> for a
  three-dimensional one and \<open>a[2:-2, 2:-2, :, t] = v\<close> for one with time levels; \<open>v\<close> is
  indexed from zero.\<close>

definition assign2 :: "nat \<Rightarrow> nat \<Rightarrow> (nat \<Rightarrow> nat \<Rightarrow> 'a) \<Rightarrow> (nat \<Rightarrow> nat \<Rightarrow> 'a) \<Rightarrow> nat \<Rightarrow> nat \<Rightarrow> 'a" where
  "assign2 nx ny v a = (\<lambda>i j. if interior nx ny i j then v (i - 2) (j - 2) else a i j)"

definition assign3 :: "nat \<Rightarrow> nat \<Rightarrow> nat \<Rightarrow> nat \<Rightarrow> arr3 \<Rightarrow> arr3 \<Rightarrow> arr3" where
  "assign3 nx ny lo hi v a =
     (\<lambda>i j k. if interior nx ny i j \<and> lo \<le> k \<and> k < hi then v (i - 2) (j - 2) (k - lo) else a i j k)"

definition assign_level :: "nat \<Rightarrow> nat \<Rightarrow> nat \<Rightarrow> nat \<Rightarrow> arr3 \<Rightarrow> arr4 \<Rightarrow> arr4" where
  "assign_level nx ny nz t v a =
     (\<lambda>i j k t'. if interior nx ny i j \<and> k < nz \<and> t' = t then v (i - 2) (j - 2) k else a i j k t')"

text \<open>\<open>data[..., ::-1] * m.maskT[2:-2, 2:-2, :]\<close>: the file has the levels in the opposite
  order.\<close>

definition masked_reversed :: "one_degree \<Rightarrow> arr3 \<Rightarrow> arr3" where
  "masked_reversed s dat = (\<lambda>i j k. dat i j (m_nz s - 1 - k) * m_maskT s (i + 2) (j + 2) k)"

text \<open>The initial temperature and salinity, written to the time levels 0 and 1.\<close>

definition ic_tracers :: "data_files \<Rightarrow> one_degree \<Rightarrow> one_degree" where
  "ic_tracers f s =
     s\<lparr>m_temp :=
          assign_level (m_nx s) (m_ny s) (m_nz s) 1 (masked_reversed s (temperature_data f))
            (assign_level (m_nx s) (m_ny s) (m_nz s) 0 (masked_reversed s (temperature_data f))
               (m_temp s)),
       m_salt :=
          assign_level (m_nx s) (m_ny s) (m_nz s) 1 (masked_reversed s (salt_data f))
            (assign_level (m_nx s) (m_ny s) (m_nz s) 0 (masked_reversed s (salt_data f))
               (m_salt s))\<rparr>"

text \<open>\<open>a[a < -99.9] = 0.\<close>\<close>

definition clear_missing :: "arr3 \<Rightarrow> arr3" where
  "clear_missing a = (\<lambda>i j k. if a i j k < - 999 / 10 then 0 else a i j k)"

text \<open>The wind stress.  The cyclic exchange \<open>setcyclic_xyz\<close> (of the Fortran library in legacy
  mode, of the module \<open>cyclic\<close> otherwise) is not listed; it is the parameter \<open>cyc\<close>.\<close>

definition ic_wind_stress :: "(one_degree \<Rightarrow> arr3 \<Rightarrow> arr3) \<Rightarrow> data_files \<Rightarrow> one_degree \<Rightarrow> one_degree" where
  "ic_wind_stress cyc f s =
     (let s1 = s\<lparr>taux := clear_missing
                   (assign3 (m_nx s) (m_ny s) 0 12 (\<lambda>i j l. tau_x_data f i j l / m_rho_0 s) (taux s))\<rparr>;
          s2 = s1\<lparr>tauy := clear_missing
                   (assign3 (m_nx s) (m_ny s) 0 12 (\<lambda>i j l. tau_y_data f i j l / m_rho_0 s) (tauy s1))\<rparr>;
          s3 = s2\<lparr>taux := cyc s2 (taux s2)\<rparr>
      in s3\<lparr>tauy := cyc s3 (tauy s3)\<rparr>)"

text \<open>\<open>m.maskT[2:-2, 2:-2, :12]\<close> has \<open>min nz 12\<close> levels.  Multiplied with twelve monthly
  fields it broadcasts when it has twelve levels or one, and raises otherwise.\<close>

definition mask12 :: "one_degree \<Rightarrow> arr3" where
  "mask12 s = (\<lambda>i j l. m_maskT s (i + 2) (j + 2) (if m_nz s = 1 then 0 else l))"

definition ic_surface_fluxes :: "data_files \<Rightarrow> one_degree \<Rightarrow> one_degree" where
  "ic_surface_fluxes f s =
     s\<lparr>qnet := assign3 (m_nx s) (m_ny s) 0 12
                 (\<lambda>i j l. - q_net_data f i j l * mask12 s i j l) (qnet s),
       qnec := assign3 (m_nx s) (m_ny s) 0 12
                 (\<lambda>i j l. dqdt_data f i j l * mask12 s i j l) (qnec s),
       qsol := assign3 (m_nx s) (m_ny s) 0 12
                 (\<lambda>i j l. - swf_data f i j l * mask12 s i j l) (qsol s),
       t_star := assign3 (m_nx s) (m_ny s) 0 12
                 (\<lambda>i j l. sst_data f i j l * mask12 s i j l) (t_star s),
       s_star := assign3 (m_nx s) (m_ny s) 0 12
                 (\<lambda>i j l. sss_data f i j l * mask12 s i j l) (s_star s)\<rparr>"

text \<open>Reading a local variable: a name that no assignment has bound raises \<open>NameError\<close>.\<close>

definition read_local :: "'a option \<Rightarrow> exn + 'a" where
  "read_local v = (case v of None \<Rightarrow> Inl NameError | Some x \<Rightarrow> Inr x)"

text \<open>
  The tidal forcing, \<open>if m.enable_idemix: \<dots> else: \<dots>\<close>.  The local \<open>tidal_energy_data\<close> is
  bound inside the \<open>if\<close> branch only; the \<open>else\<close> branch reads it.  In the \<open>if\<close> branch the
  mask \<open>maskW\<close> is read at the level \<open>max 0 (kbot - 1)\<close> of every interior column, which must
  be a level of the array.
\<close>

definition bottom_level :: "one_degree \<Rightarrow> nat \<Rightarrow> nat \<Rightarrow> int" where
  "bottom_level s i j = max 0 (m_kbot s (i + 2) (j + 2) - 1)"

definition ic_tidal :: "data_files \<Rightarrow> one_degree \<Rightarrow> one_degree \<times> exn option" where
  "ic_tidal f s =
     (if m_enable_idemix s then
        if \<exists>i\<in>{..<m_nx s}. \<exists>j\<in>{..<m_ny s}. int (m_nz s) \<le> bottom_level s i j
        then (s, Some IndexError)
        else
          let tidal_energy_data =
                (\<lambda>i j. tidal_energy_file f i j
                         * (m_maskW s (i + 2) (j + 2) (nat (bottom_level s i j)) / m_rho_0 s))
          in if m_enable_idemix_M2 s
             then (s\<lparr>idm_forc_M2 := assign3 (m_nx s) (m_ny s) 1 (m_np s - 1)
                          (\<lambda>i j l. 0.5 * tidal_energy_data i j / (2 * pi)) (idm_forc_M2 s)\<rparr>, None)
             else (s\<lparr>m_forc_iw_bottom := assign2 (m_nx s) (m_ny s)
                          (\<lambda>i j. 0.5 * tidal_energy_data i j) (m_forc_iw_bottom s)\<rparr>, None)
      else
        (case read_local (None :: arr2 option) of
           Inl e \<Rightarrow> (s, Some e)
         | Inr tidal_energy_data \<Rightarrow>
             (s\<lparr>m_forc_iw_bottom := assign2 (m_nx s) (m_ny s) tidal_energy_data
                   (m_forc_iw_bottom s)\<rparr>, None)))"

text \<open>The wind energy and the near-inertial forcing.\<close>

definition ic_wind :: "data_files \<Rightarrow> one_degree \<Rightarrow> one_degree" where
  "ic_wind f s =
     (let wind_energy_data =
            (\<lambda>i j. wind_energy_file f i j
                     * (m_maskW s (i + 2) (j + 2) (m_nz s - 1) / m_rho_0 s * 0.2));
          s1 = (if m_enable_idemix_niw s
                then s\<lparr>idm_forc_niw := assign3 (m_nx s) (m_ny s) 0 (m_np s - 1)
                           (\<lambda>i j l. 1.0 * wind_energy_data i j / (2 * pi)) (idm_forc_niw s),
                       m_forc_iw_surface := assign2 (m_nx s) (m_ny s) (\<lambda>i j. 0)
                           (m_forc_iw_surface s)\<rparr>
                else s\<lparr>m_forc_iw_surface := assign2 (m_nx s) (m_ny s) wind_energy_data
                           (m_forc_iw_surface s)\<rparr>)
      in if m_enable_idemix_niw s1
         then s1\<lparr>idm_omega_niw :=
                   (\<lambda>i j. if 2 \<le> i \<and> i < m_nx s1 + 2
                           then max (1 / 10 ^ 8) \<bar>1.05 * m_coriolis_t s1 i j\<bar>
                           else idm_omega_niw s1 i j)\<rparr>
         else s1)"

text \<open>The penetration profile of the solar radiation and its divergence.\<close>

definition ic_shortwave :: "one_degree \<Rightarrow> one_degree" where
  "ic_shortwave s =
     (let rpart_shortwave = 0.58; efold1_shortwave = 0.35; efold2_shortwave = 23.0;
          pen = (\<lambda>k. rpart_shortwave * exp (m_zw s k / efold1_shortwave)
                      + (1.0 - rpart_shortwave) * exp (m_zw s k / efold2_shortwave))
      in s\<lparr>divpen_shortwave :=
             (\<lambda>k. if 1 \<le> k \<and> k < m_nz s then (pen k - pen (k - 1)) / m_dzt s k else 0)\<rparr>)"

text \<open>\<open>GlobalOneDegree.set_initial_conditions\<close>.  The arrays are updated in place, so what was
  written before an exception stays written: the result is the state together with the
  exception, if any.\<close>

definition set_initial_conditions ::
  "(one_degree \<Rightarrow> arr3 \<Rightarrow> arr3) \<Rightarrow> data_files \<Rightarrow> one_degree \<Rightarrow> one_degree \<times> exn option" where
  "set_initial_conditions cyc f s =
     (let s2 = ic_wind_stress cyc f (ic_tracers f s)
      in if m_nz s2 \<noteq> 1 \<and> m_nz s2 < 12 then (s2, Some ValueError)
         else
           (case ic_tidal f (ic_surface_fluxes f s2) of
              (s4, Some e) \<Rightarrow> (s4, Some e)
            | (s4, None) \<Rightarrow>
                let s5 = ic_wind f s4
                in if m_enable_idemix_niw s5 \<or> m_enable_idemix_M2 s5
                   then (s5, Some NotImplementedError)
                   else (ic_shortwave s5, None)))"

text \<open>\<open>GlobalOneDegree.set_topography\<close>.  The loop runs \<open>k\<close> from \<open>nz-1\<close> down to \<open>0\<close> and
  writes \<open>k+1\<close> where the salinity file is not zero at level \<open>k\<close>.\<close>

definition mark_level :: "one_degree \<Rightarrow> data_files \<Rightarrow> nat \<Rightarrow> (nat \<Rightarrow> nat \<Rightarrow> int) \<Rightarrow> nat \<Rightarrow> nat \<Rightarrow> int" where
  "mark_level s f k kb =
     (\<lambda>i j. if interior (m_nx s) (m_ny s) i j \<and> salt_data f (i - 2) (j - 2) k \<noteq> 0
            then int k + 1 else kb i j)"

text \<open>\<open>m.kbot[2:-2, 2:-2][mask] = 0\<close> for a mask over the indices \<open>(i, j)\<close> of the interior.\<close>

definition close_cells :: "one_degree \<Rightarrow> (nat \<Rightarrow> nat \<Rightarrow> bool) \<Rightarrow> (nat \<Rightarrow> nat \<Rightarrow> int) \<Rightarrow> nat \<Rightarrow> nat \<Rightarrow> int" where
  "close_cells s msk kb =
     (\<lambda>i j. if interior (m_nx s) (m_ny s) i j \<and> msk (i - 2) (j - 2) then 0 else kb i j)"

definition channel1 :: "nat \<Rightarrow> nat \<Rightarrow> bool" where
  "channel1 i j = (i \<ge> 207 \<and> i < 214 \<and> j < 5)"

definition channel2 :: "nat \<Rightarrow> nat \<Rightarrow> bool" where
  "channel2 i j = (i = 104 \<and> j = 134)"

definition channel3 :: "nat \<Rightarrow> nat \<Rightarrow> bool" where
  "channel3 i j = (i \<ge> 269 \<and> i < 271 \<and> j = 130)"

definition set_topography :: "data_files \<Rightarrow> one_degree \<Rightarrow> one_degree" where
  "set_topography f s =
     (let kb1 = fold (mark_level s f) (rev [0..<m_nz s]) (m_kbot s);
          kb2 = close_cells s (\<lambda>i j. bathymetry_data f i j = 0) kb1;
          kb3 = (\<lambda>i j. min (kb2 i j) (int (m_nz s)));
          kb4 = close_cells s channel1 kb3;
          kb5 = close_cells s channel2 kb4
      in s\<lparr>m_kbot := close_cells s channel3 kb5\<rparr>)"

subsection \<open>Sample inputs\<close>

text \<open>A grid of 360 by 160 columns with \<open>nz\<close> levels, land where the first index is below
  100, all arrays zero as \<open>allocate\<close> leaves them; files with temperature 20 and salinity 35
  in every cell; a cyclic exchange that changes nothing.\<close>

definition sample_grid :: "nat \<Rightarrow> bool \<Rightarrow> one_degree" where
  "sample_grid nz idemix =
     \<lparr> m_nx = 360, m_ny = 160, m_nz = nz, m_np = 0, m_rho_0 = 1024,
       m_enable_idemix = idemix, m_enable_idemix_M2 = False, m_enable_idemix_niw = False,
       m_temp = (\<lambda>i j k t. 0), m_salt = (\<lambda>i j k t. 0),
       m_maskT = (\<lambda>i j k. if i < 100 then 0 else 1),
       m_maskW = (\<lambda>i j k. if i < 100 then 0 else 1),
       m_kbot = (\<lambda>i j. 0), m_forc_iw_bottom = (\<lambda>i j. 0), m_forc_iw_surface = (\<lambda>i j. 0),
       m_coriolis_t = (\<lambda>i j. 0), m_zw = (\<lambda>k. 0), m_dzt = (\<lambda>k. 1),
       idm_forc_M2 = (\<lambda>i j k. 0), idm_forc_niw = (\<lambda>i j k. 0), idm_omega_niw = (\<lambda>i j. 0),
       taux = (\<lambda>i j k. 0), tauy = (\<lambda>i j k. 0), qnet = (\<lambda>i j k. 0), qnec = (\<lambda>i j k. 0),
       qsol = (\<lambda>i j k. 0), t_star = (\<lambda>i j k. 0), s_star = (\<lambda>i j k. 0),
       divpen_shortwave = (\<lambda>k. 0) \<rparr>"

definition sample_files :: data_files where
  "sample_files =
     \<lparr> temperature_data = (\<lambda>i j k. 20), salt_data = (\<lambda>i j k. 35),
       tau_x_data = (\<lambda>i j k. 1), tau_y_data = (\<lambda>i j k. 1), q_net_data = (\<lambda>i j k. 1),
       dqdt_data = (\<lambda>i j k. 1), swf_data = (\<lambda>i j k. 1), sst_data = (\<lambda>i j k. 1),
       sss_data = (\<lambda>i j k. 1), bathymetry_data = (\<lambda>i j. if i < 98 then 0 else 4000),
       tidal_energy_file = (\<lambda>i j. 1), wind_energy_file = (\<lambda>i j. 1) \<rparr>"

definition no_exchange :: "one_degree \<Rightarrow> arr3 \<Rightarrow> arr3" where
  "no_exchange s a = a"

section \<open>The tracer monitor (tracer_monitor.py)\<close>

text \<open>The variables of the model state that \<open>TracerMonitor.output\<close> reads, with the grid
  size, and the variables of the diagnostic.\<close>

record veros_state =
  vs_nx :: nat
  vs_ny :: nat
  vs_nz :: nat
  vs_area_t :: arr2
  vs_dzt :: arr1
  vs_maskT :: arr3
  vs_temp :: arr4
  vs_salt :: arr4
  vs_tau :: nat

record tracer_vs =
  tempm1 :: real
  vtemp1 :: real
  saltm1 :: real
  vsalt1 :: real

text \<open>\<open>np.sum\<close> of an array over \<open>[2:-2, 2:-2, :]\<close>.\<close>

definition np_sum :: "veros_state \<Rightarrow> arr3 \<Rightarrow> real" where
  "np_sum vs a =
     sum_list (map (\<lambda>i. sum_list (map (\<lambda>j. sum_list (map (\<lambda>k. a i j k) [0..<vs_nz vs]))
                                      [2..<vs_ny vs + 2]))
                   [2..<vs_nx vs + 2])"

definition cell_volume :: "veros_state \<Rightarrow> arr3" where
  "cell_volume vs = (\<lambda>i j k. vs_area_t vs i j * vs_dzt vs k * vs_maskT vs i j k)"

text \<open>\<open>TracerMonitor.output\<close>.  \<open>global_sum\<close>, the sum over the processes of a distributed run,
  is not listed and is the parameter \<open>gs\<close>.  The result is the four pairs of numbers that are
  logged (mean, change to last) and the variables of the diagnostic.\<close>

definition tracer_output ::
  "(real \<Rightarrow> real) \<Rightarrow> veros_state \<Rightarrow> tracer_vs \<Rightarrow> (real \<times> real) list \<times> tracer_vs" where
  "tracer_output gs vs tracer =
     (let volm = gs (np_sum vs (cell_volume vs));
          tempm = gs (np_sum vs (\<lambda>i j k. cell_volume vs i j k * vs_temp vs i j k (vs_tau vs)));
          saltm = gs (np_sum vs (\<lambda>i j k. cell_volume vs i j k * vs_salt vs i j k (vs_tau vs)));
          vtemp = gs (np_sum vs (\<lambda>i j k. cell_volume vs i j k * (vs_temp vs i j k (vs_tau vs))\<^sup>2));
          vsalt = gs (np_sum vs (\<lambda>i j k. cell_volume vs i j k * (vs_salt vs i j k (vs_tau vs))\<^sup>2))
      in ([(tempm / volm, (tempm - tempm1 tracer) / volm),
           (saltm / volm, (saltm - saltm1 tracer) / volm),
           (vtemp / volm, (vtemp - vtemp1 tracer) / volm),
           (vsalt / volm, (vsalt - vsalt1 tracer) / volm)],
          tracer\<lparr>tempm1 := tempm, vtemp1 := vtemp, saltm1 := saltm, vsalt1 := vsalt\<rparr>))"

text \<open>The specification's volume integral of a tracer \<open>q\<close>: the sum of
  \<open>cell_volume * tracer\<close> over the interior cells, with
  \<open>cell_volume = area_t \<cdot> dzt \<cdot> maskT\<close>; and the same sum over the ocean cells only.\<close>

definition cells :: "veros_state \<Rightarrow> (nat \<times> nat \<times> nat) set" where
  "cells vs = {2..<vs_nx vs + 2} \<times> {2..<vs_ny vs + 2} \<times> {0..<vs_nz vs}"

definition spec_content :: "veros_state \<Rightarrow> arr3 \<Rightarrow> real" where
  "spec_content vs q =
     (\<Sum>(i, j, k)\<in>cells vs. (vs_area_t vs i j * vs_dzt vs k * vs_maskT vs i j k) * q i j k)"

definition ocean_content :: "veros_state \<Rightarrow> arr3 \<Rightarrow> real" where
  "ocean_content vs q =
     (\<Sum>(i, j, k)\<in>{c \<in> cells vs. vs_maskT vs (fst c) (fst (snd c)) (snd (snd c)) \<noteq> 0}.
        (vs_area_t vs i j * vs_dzt vs k * vs_maskT vs i j k) * q i j k)"

section \<open>The overturning diagnostic (overturning.py)\<close>

text \<open>The five variables that \<open>diagnose_kernel\<close> accumulates, by name.\<close>

datatype ovt_name = Trans | Vsf_iso | Vsf_depth | Bolus_iso | Bolus_depth

text \<open>The variables of the diagnostic: the sample count \<open>nitts\<close> and the accumulators; \<open>acc s v\<close>
  is \<open>getattr(ovt_vs, v)\<close>.  The constant axes \<open>sigma\<close> and \<open>zarea\<close> are left out.\<close>

record ovt_vs =
  nitts :: int
  acc :: "ovt_name \<Rightarrow> arr2"

text \<open>\<open>active\<close> of the two bolus variables.\<close>

definition bolus_active :: "bool \<Rightarrow> bool \<Rightarrow> bool" where
  "bolus_active enable_neutral_diffusion enable_skew_diffusion =
     (enable_neutral_diffusion \<and> enable_skew_diffusion)"

text \<open>\<open>self.output_variables\<close> as \<open>__init__\<close> collects it (without the two axes).\<close>

definition output_variables :: "bool \<Rightarrow> ovt_name list" where
  "output_variables active =
     [Trans, Vsf_iso, Vsf_depth] @ (if active then [Bolus_iso, Bolus_depth] else [])"

text \<open>\<open>Overturning.diagnose\<close>.  The numerics of \<open>diagnose_kernel\<close> (density, zonal sums,
  interpolation) are not modelled: \<open>smp v\<close> is what the kernel adds to the variable \<open>v\<close> for the
  current state.  \<open>trans\<close>, \<open>vsf_depth\<close> and \<open>vsf_iso\<close> are always added to, the bolus variables
  when they are active.\<close>

definition diagnose :: "bool \<Rightarrow> (ovt_name \<Rightarrow> arr2) \<Rightarrow> ovt_vs \<Rightarrow> ovt_vs" where
  "diagnose active smp s =
     s\<lparr>acc := (\<lambda>v. if v \<in> {Trans, Vsf_depth, Vsf_iso} \<or> active
                    then (\<lambda>i j. acc s v i j + smp v i j) else acc s v),
       nitts := nitts s + 1\<rparr>"

definition mean_variables :: "ovt_name list" where
  "mean_variables = [Trans, Vsf_iso, Vsf_depth]"

text \<open>\<open>Overturning.output\<close>: the division by the sample count, \<open>write_output\<close> (the result
  lists what is written, each output variable with its value), the reset.\<close>

definition divide_by_nitts :: "ovt_name list \<Rightarrow> ovt_name \<Rightarrow> ovt_vs \<Rightarrow> ovt_vs" where
  "divide_by_nitts outs v s =
     (if v \<notin> set outs then s
      else s\<lparr>acc := (acc s)(v := (\<lambda>i j. acc s v i j / real_of_int (nitts s)))\<rparr>)"

definition reset_var :: "ovt_name list \<Rightarrow> ovt_name \<Rightarrow> ovt_vs \<Rightarrow> ovt_vs" where
  "reset_var outs v s =
     (if v \<notin> set outs then s
      else s\<lparr>acc := (acc s)(v := (\<lambda>i j. acc s v i j * 0))\<rparr>)"

definition ovt_output :: "ovt_name list \<Rightarrow> ovt_vs \<Rightarrow> (ovt_name \<times> arr2) list \<times> ovt_vs" where
  "ovt_output outs s =
     (let s1 = (if nitts s > 0 then fold (divide_by_nitts outs) mean_variables s else s);
          written = map (\<lambda>v. (v, acc s1 v)) outs;
          s2 = fold (reset_var outs) mean_variables s1
      in (written, s2\<lparr>nitts := 0\<rparr>))"

section \<open>Properties of the orchestrator\<close>

lemma invoke_frame:
  "taum1 (fst (invoke ext c s)) = taum1 s"
  "tau (fst (invoke ext c s)) = tau s"
  "taup1 (fst (invoke ext c s)) = taup1 s"
  "itt (fst (invoke ext c s)) = itt s"
  "enditt (fst (invoke ext c s)) = enditt s"
  "conf (fst (invoke ext c s)) = conf s"
  "is_bohrium (fst (invoke ext c s)) = is_bohrium s"
  "trace (fst (invoke ext c s)) = trace s @ [c]"
  by (simp_all add: invoke_def split: prod.splits)

lemma exec_frame:
  "taum1 (fst (exec ext cs s)) = taum1 s \<and> tau (fst (exec ext cs s)) = tau s
   \<and> taup1 (fst (exec ext cs s)) = taup1 s \<and> itt (fst (exec ext cs s)) = itt s
   \<and> enditt (fst (exec ext cs s)) = enditt s \<and> conf (fst (exec ext cs s)) = conf s
   \<and> is_bohrium (fst (exec ext cs s)) = is_bohrium s"
proof (induction cs arbitrary: s)
  case Nil
  show ?case by simp
next
  case (Cons c cs)
  obtain t r where i: "invoke ext c s = (t, r)" by (cases "invoke ext c s")
  have t: "taum1 t = taum1 s" "tau t = tau s" "taup1 t = taup1 s" "itt t = itt s"
    "enditt t = enditt s" "conf t = conf s" "is_bohrium t = is_bohrium s"
    using invoke_frame [of ext c s] i by simp_all
  show ?case
  proof (cases r)
    case None
    with i Cons.IH [of t] t show ?thesis by simp
  next
    case (Some e)
    with i t show ?thesis by simp
  qed
qed

lemma exec_trace_ok:
  "snd (exec ext cs s) = None \<Longrightarrow> trace (fst (exec ext cs s)) = trace s @ cs"
proof (induction cs arbitrary: s)
  case Nil
  show ?case by simp
next
  case (Cons c cs)
  obtain t r where i: "invoke ext c s = (t, r)" by (cases "invoke ext c s")
  have tr: "trace t = trace s @ [c]" using invoke_frame(8) [of ext c s] i by simp
  show ?case
  proof (cases r)
    case None
    with i Cons.prems have "snd (exec ext cs t) = None" by simp
    from Cons.IH [OF this] i None tr show ?thesis by simp
  next
    case (Some e)
    with i Cons.prems show ?thesis by simp
  qed
qed

lemma exec_trace_fail:
  "snd (exec ext cs s) = Some e \<Longrightarrow>
     \<exists>n < length cs. trace (fst (exec ext cs s)) = trace s @ take (Suc n) cs"
proof (induction cs arbitrary: s)
  case Nil
  then show ?case by simp
next
  case (Cons c cs)
  obtain t r where i: "invoke ext c s = (t, r)" by (cases "invoke ext c s")
  have tr: "trace t = trace s @ [c]" using invoke_frame(8) [of ext c s] i by simp
  show ?case
  proof (cases r)
    case None
    with i Cons.prems have "snd (exec ext cs t) = Some e" by simp
    from Cons.IH [OF this] obtain n where "n < length cs"
      "trace (fst (exec ext cs t)) = trace t @ take (Suc n) cs" by blast
    with i None tr have "Suc n < length (c # cs) \<and>
        trace (fst (exec ext (c # cs) s)) = trace s @ take (Suc (Suc n)) (c # cs)" by simp
    then show ?thesis by blast
  next
    case (Some e')
    with i tr have "0 < length (c # cs) \<and>
        trace (fst (exec ext (c # cs) s)) = trace s @ take (Suc 0) (c # cs)" by simp
    then show ?thesis by blast
  qed
qed


lemma ball_set_if: "(\<forall>y\<in>set (if b then xs else []). Q y) = (b \<longrightarrow> (\<forall>y\<in>set xs. Q y))"
  by (cases b) simp_all

lemma sorted_wrt_if: "sorted_wrt P (if b then xs else []) = (b \<longrightarrow> sorted_wrt P xs)"
  by simp

lemma mem_set_if: "(x \<in> set (if b then xs else [])) = (b \<and> x \<in> set xs)"
  by simp

lemma ranked_join:
  assumes "ranked lo n xs" and "ranked n hi ys" and "lo \<le> n" and "n \<le> hi"
  shows "ranked lo hi (xs @ ys)"
proof -
  have xs: "\<exists>r. rank x = Some r \<and> lo \<le> r \<and> r < n" if "x \<in> set xs" for x
    using that assms(1) unfolding ranked_def by blast
  have ys: "\<exists>r. rank y = Some r \<and> n \<le> r \<and> r < hi" if "y \<in> set ys" for y
    using that assms(2) unfolding ranked_def by blast
  have "before x y" if "x \<in> set xs" "y \<in> set ys" for x y
  proof -
    from xs [OF that(1)] ys [OF that(2)]
    obtain r q where "rank x = Some r" "r < n" "rank y = Some q" "n \<le> q"
      by blast
    then show ?thesis by (simp add: before_def)
  qed
  then have s: "sorted_wrt before (xs @ ys)"
    using assms(1,2) by (simp add: sorted_wrt_append ranked_def)
  have "\<exists>r. rank z = Some r \<and> lo \<le> r \<and> r < hi" if "z \<in> set (xs @ ys)" for z
  proof -
    from that have "z \<in> set xs \<or> z \<in> set ys" by simp
    then show ?thesis
    proof
      assume "z \<in> set xs"
      from xs [OF this] obtain r where "rank z = Some r" "lo \<le> r" "r < n" by blast
      with assms(4) show ?thesis by auto
    next
      assume "z \<in> set ys"
      from ys [OF this] obtain r where "rank z = Some r" "n \<le> r" "r < hi" by blast
      with assms(3) show ?thesis by auto
    qed
  qed
  with s show ?thesis unfolding ranked_def by blast
qed

lemma part_pre:
  "ranked 0 8
     ([Set_forcing] @ (if enable_idemix c then [Set_idemix_parameter] else [])
      @ (if enable_idemix_M2 c \<or> enable_idemix_niw c then [Set_spectral_parameter] else [])
      @ [Set_eke_diffusivities, Set_tke_diffusivities, Momentum, Thermodynamics]
      @ (if enable_eke c \<or> enable_tke c \<or> enable_idemix c
         then [Calculate_velocity_on_wgrid] else []))"
  by (auto simp: ranked_def before_def)

lemma part_closures:
  "ranked 8 14
     ((if enable_eke c then [Integrate_eke] else [])
      @ (if enable_idemix_M2 c then [Integrate_idemix_M2] else [])
      @ (if enable_idemix_niw c then [Integrate_idemix_niw] else [])
      @ (if enable_idemix c then [Integrate_idemix] else [])
      @ (if enable_idemix_M2 c \<or> enable_idemix_niw c then [Wave_interaction] else [])
      @ (if enable_tke c then [Integrate_tke] else []))"
  by (auto simp: ranked_def before_def)

lemma part_exchange:
  "ranked 14 24 (if enable_cyclic_x c then main_exchange c k else [])"
  by (auto simp: ranked_def before_def main_exchange_def)

lemma part_post:
  "ranked 24 28
     ((if enable_hydrostatic c then [Vertical_velocity] else [])
      @ (if b then [Np_flush] else []) @ [Diagnose] @ [Shift_time])"
  by (auto simp: ranked_def before_def)

lemma step_sorted: "sorted_wrt before (timestep_stages c b k @ [Shift_time])"
proof -
  let ?A = "[Set_forcing] @ (if enable_idemix c then [Set_idemix_parameter] else [])
      @ (if enable_idemix_M2 c \<or> enable_idemix_niw c then [Set_spectral_parameter] else [])
      @ [Set_eke_diffusivities, Set_tke_diffusivities, Momentum, Thermodynamics]
      @ (if enable_eke c \<or> enable_tke c \<or> enable_idemix c
         then [Calculate_velocity_on_wgrid] else [])"
  let ?B = "(if enable_eke c then [Integrate_eke] else [])
      @ (if enable_idemix_M2 c then [Integrate_idemix_M2] else [])
      @ (if enable_idemix_niw c then [Integrate_idemix_niw] else [])
      @ (if enable_idemix c then [Integrate_idemix] else [])
      @ (if enable_idemix_M2 c \<or> enable_idemix_niw c then [Wave_interaction] else [])
      @ (if enable_tke c then [Integrate_tke] else [])"
  let ?C = "if enable_cyclic_x c then main_exchange c k else []"
  let ?D = "(if enable_hydrostatic c then [Vertical_velocity] else [])
      @ (if b then [Np_flush] else []) @ [Diagnose] @ [Shift_time]"
  have eq: "timestep_stages c b k @ [Shift_time] = ((?A @ ?B) @ ?C) @ ?D"
    by (simp add: timestep_stages_def split del: if_split)
  have "ranked 0 28 (((?A @ ?B) @ ?C) @ ?D)"
    by (rule ranked_join [OF ranked_join [OF ranked_join [OF part_pre part_closures]
          part_exchange] part_post]) simp_all
  with eq show ?thesis by (simp only: ranked_def)
qed

lemma step_members:
  "Set_forcing \<in> set (timestep_stages c b k)"
  "Set_eke_diffusivities \<in> set (timestep_stages c b k)"
  "Set_tke_diffusivities \<in> set (timestep_stages c b k)"
  "Momentum \<in> set (timestep_stages c b k)"
  "Thermodynamics \<in> set (timestep_stages c b k)"
  "(Set_idemix_parameter \<in> set (timestep_stages c b k)) = enable_idemix c"
  "(Calculate_velocity_on_wgrid \<in> set (timestep_stages c b k))
     = (enable_eke c \<or> enable_tke c \<or> enable_idemix c)"
  "(Integrate_eke \<in> set (timestep_stages c b k)) = enable_eke c"
  "(Integrate_idemix \<in> set (timestep_stages c b k)) = enable_idemix c"
  "(Integrate_tke \<in> set (timestep_stages c b k)) = enable_tke c"
  "Shift_time \<notin> set (timestep_stages c b k)"
  "Panic_snap \<notin> set (timestep_stages c b k)"
  by (simp_all add: timestep_stages_def main_exchange_def mem_set_if split del: if_split)

lemma step_cyclic:
  "(\<exists>f j. Setcyclic_x f j \<in> set (timestep_stages c b k)) = enable_cyclic_x c"
proof -
  have "(Setcyclic_x f j \<in> set (timestep_stages c b k))
      = (enable_cyclic_x c \<and> Setcyclic_x f j \<in> set (main_exchange c k))" for f j
    by (simp add: timestep_stages_def mem_set_if split del: if_split)
  moreover have "Setcyclic_x F_u k \<in> set (main_exchange c k)"
    by (simp add: main_exchange_def)
  ultimately show ?thesis by blast
qed

lemma step_in_spec_order: "in_spec_order c (timestep_stages c b k @ [Shift_time])"
  using step_sorted [of c b k] step_members [of c b k] step_cyclic [of c b k]
  by (simp add: in_spec_order_def)

lemma step_precedes: "precedes Momentum Thermodynamics (timestep_stages c b k @ [Shift_time])"
proof -
  let ?P = "[Set_forcing] @ (if enable_idemix c then [Set_idemix_parameter] else [])
      @ (if enable_idemix_M2 c \<or> enable_idemix_niw c then [Set_spectral_parameter] else [])
      @ [Set_eke_diffusivities, Set_tke_diffusivities]"
  let ?Q = "(if enable_eke c \<or> enable_tke c \<or> enable_idemix c
        then [Calculate_velocity_on_wgrid] else [])
     @ (if enable_eke c then [Integrate_eke] else [])
     @ (if enable_idemix_M2 c then [Integrate_idemix_M2] else [])
     @ (if enable_idemix_niw c then [Integrate_idemix_niw] else [])
     @ (if enable_idemix c then [Integrate_idemix] else [])
     @ (if enable_idemix_M2 c \<or> enable_idemix_niw c then [Wave_interaction] else [])
     @ (if enable_tke c then [Integrate_tke] else [])
     @ (if enable_cyclic_x c then main_exchange c k else [])
     @ (if enable_hydrostatic c then [Vertical_velocity] else [])
     @ (if b then [Np_flush] else [])
     @ [Diagnose] @ [Shift_time]"
  have eq: "timestep_stages c b k @ [Shift_time] = ?P @ [Momentum] @ [] @ [Thermodynamics] @ ?Q"
    by (simp add: timestep_stages_def split del: if_split)
  have P: "Momentum \<notin> set ?P" "Thermodynamics \<notin> set ?P"
    by (simp_all add: mem_set_if split del: if_split)
  have Q: "Momentum \<notin> set ?Q" "Thermodynamics \<notin> set ?Q"
    by (simp_all add: mem_set_if main_exchange_def split del: if_split)
  from P Q have "Momentum \<notin> set (?P @ [] @ ?Q)" "Thermodynamics \<notin> set (?P @ [] @ ?Q)"
    by (simp_all only: set_append Un_iff set_simps empty_iff simp_thms)
  with eq show ?thesis unfolding precedes_def by blast
qed

lemma timestep_ok:
  assumes "snd (timestep ext s) = None"
  shows "snd (exec ext (timestep_stages (conf s) (is_bohrium s) (taup1 s)) s) = None"
    and "fst (timestep ext s)
          = shift_time (fst (exec ext (timestep_stages (conf s) (is_bohrium s) (taup1 s)) s))"
    and "trace (fst (timestep ext s))
          = trace s @ timestep_stages (conf s) (is_bohrium s) (taup1 s) @ [Shift_time]"
    and "taum1 (fst (timestep ext s)) = tau s"
    and "tau (fst (timestep ext s)) = taup1 s"
    and "taup1 (fst (timestep ext s)) = taum1 s"
    and "itt (fst (timestep ext s)) = itt s + 1"
    and "enditt (fst (timestep ext s)) = enditt s"
    and "conf (fst (timestep ext s)) = conf s"
    and "is_bohrium (fst (timestep ext s)) = is_bohrium s"
proof -
  let ?cs = "timestep_stages (conf s) (is_bohrium s) (taup1 s)"
  obtain s1 r where e: "exec ext ?cs s = (s1, r)" by (cases "exec ext ?cs s")
  obtain s2 r2 where p: "invoke ext Panic_snap s1 = (s2, r2)" by (cases "invoke ext Panic_snap s1")
  from assms e p have r: "r = None"
    by (cases r; cases r2) (simp_all add: timestep_def)
  with e show ok: "snd (exec ext ?cs s) = None" by simp
  from e r show f: "fst (timestep ext s) = shift_time (fst (exec ext ?cs s))"
    by (simp add: timestep_def)
  from exec_trace_ok [OF ok] f
  show "trace (fst (timestep ext s)) = trace s @ ?cs @ [Shift_time]"
    by (simp add: shift_time_def)
  from f exec_frame [of ext ?cs s]
  show "taum1 (fst (timestep ext s)) = tau s" "tau (fst (timestep ext s)) = taup1 s"
    "taup1 (fst (timestep ext s)) = taum1 s" "itt (fst (timestep ext s)) = itt s + 1"
    "enditt (fst (timestep ext s)) = enditt s" "conf (fst (timestep ext s)) = conf s"
    "is_bohrium (fst (timestep ext s)) = is_bohrium s"
    by (simp_all add: shift_time_def)
qed

lemma timestep_fail:
  assumes "snd (timestep ext s) = Some e"
  shows "\<exists>e0. snd (exec ext (timestep_stages (conf s) (is_bohrium s) (taup1 s)) s) = Some e0"
    and "timestep ext s
          = (case invoke ext Panic_snap
                   (fst (exec ext (timestep_stages (conf s) (is_bohrium s) (taup1 s)) s)) of
               (s2, r2) \<Rightarrow> (s2, Some (case r2 of None \<Rightarrow>
                   the (snd (exec ext (timestep_stages (conf s) (is_bohrium s) (taup1 s)) s))
                 | Some e' \<Rightarrow> e')))"
    and "trace (fst (timestep ext s))
          = trace (fst (exec ext (timestep_stages (conf s) (is_bohrium s) (taup1 s)) s))
            @ [Panic_snap]"
    and "taum1 (fst (timestep ext s)) = taum1 s"
    and "tau (fst (timestep ext s)) = tau s"
    and "taup1 (fst (timestep ext s)) = taup1 s"
    and "itt (fst (timestep ext s)) = itt s"
    and "enditt (fst (timestep ext s)) = enditt s"
    and "conf (fst (timestep ext s)) = conf s"
proof -
  let ?cs = "timestep_stages (conf s) (is_bohrium s) (taup1 s)"
  obtain s1 r where e: "exec ext ?cs s = (s1, r)" by (cases "exec ext ?cs s")
  obtain s2 r2 where p: "invoke ext Panic_snap s1 = (s2, r2)" by (cases "invoke ext Panic_snap s1")
  from assms e obtain e0 where r: "r = Some e0"
    by (cases r) (simp_all add: timestep_def)
  with e show "\<exists>e0. snd (exec ext ?cs s) = Some e0" by simp
  from e r p show "timestep ext s
          = (case invoke ext Panic_snap (fst (exec ext ?cs s)) of
               (s2, r2) \<Rightarrow> (s2, Some (case r2 of None \<Rightarrow> the (snd (exec ext ?cs s))
                 | Some e' \<Rightarrow> e')))"
    by (cases r2) (simp_all add: timestep_def)
  from e r p have f: "fst (timestep ext s) = fst (invoke ext Panic_snap (fst (exec ext ?cs s)))"
    by (cases r2) (simp_all add: timestep_def)
  from f invoke_frame [of ext Panic_snap "fst (exec ext ?cs s)"] exec_frame [of ext ?cs s]
  show "trace (fst (timestep ext s)) = trace (fst (exec ext ?cs s)) @ [Panic_snap]"
    "taum1 (fst (timestep ext s)) = taum1 s" "tau (fst (timestep ext s)) = tau s"
    "taup1 (fst (timestep ext s)) = taup1 s" "itt (fst (timestep ext s)) = itt s"
    "enditt (fst (timestep ext s)) = enditt s" "conf (fst (timestep ext s)) = conf s"
    by simp_all
qed

lemma main_loop_conf: "conf (fst (main_loop ext s)) = conf s"
proof (induction ext s rule: main_loop.induct)
  case (1 ext s)
  show ?case
  proof (cases "itt s < enditt s")
    case False
    then show ?thesis by (subst main_loop.simps) simp
  next
    case True
    obtain t r where ts: "timestep ext s = (t, r)" by (cases "timestep ext s")
    show ?thesis
    proof (cases r)
      case None
      with ts timestep_ok(9) [of ext s] have "conf t = conf s" by simp
      moreover from "1.IH" [OF True ts [symmetric] None] have "conf (fst (main_loop ext t)) = conf t" .
      ultimately show ?thesis using True ts None by (subst main_loop.simps) simp
    next
      case (Some e)
      with ts timestep_fail(9) [of ext s e] have "conf t = conf s" by simp
      then show ?thesis using True ts Some by (subst main_loop.simps) simp
    qed
  qed
qed

lemma main_loop_trace:
  assumes "main_loop ext s = (s', r)"
  shows "\<exists>segs rest.
           trace s' = trace s @ concat segs @ rest
         \<and> int (length segs) = itt s' - itt s
         \<and> (\<forall>seg\<in>set segs. in_spec_order (conf s) seg \<and> precedes Momentum Thermodynamics seg)
         \<and> (case r of None \<Rightarrow> rest = []
            | Some e \<Rightarrow> \<exists>p. rest = p @ [Panic_snap] \<and> sorted_wrt before p)"
  using assms
proof (induction ext s arbitrary: s' r rule: main_loop.induct)
  case (1 ext s)
  show ?case
  proof (cases "itt s < enditt s")
    case False
    with "1.prems" have "s' = s" "r = None" by (simp_all add: main_loop.simps [of ext s])
    then have "trace s' = trace s @ concat [] @ [] \<and> int (length ([] :: stage list list)) = itt s' - itt s
        \<and> (\<forall>seg\<in>set []. in_spec_order (conf s) seg \<and> precedes Momentum Thermodynamics seg)
        \<and> (case r of None \<Rightarrow> [] = ([] :: stage list)
            | Some e \<Rightarrow> \<exists>p. [] = p @ [Panic_snap] \<and> sorted_wrt before p)"
      by simp
    then show ?thesis by blast
  next
    case True
    let ?cs = "timestep_stages (conf s) (is_bohrium s) (taup1 s)"
    obtain t q where ts: "timestep ext s = (t, q)" by (cases "timestep ext s")
    show ?thesis
    proof (cases q)
      case None
      from ts None have ok: "snd (timestep ext s) = None" and t: "fst (timestep ext s) = t"
        by simp_all
      from timestep_ok(3,7,9) [OF ok] t
      have tr: "trace t = trace s @ ?cs @ [Shift_time]" and it: "itt t = itt s + 1"
        and cf: "conf t = conf s" by simp_all
      from "1.prems" True ts None have ml: "main_loop ext t = (s', r)"
        by (simp add: main_loop.simps [of ext s])
      from "1.IH" [OF True ts [symmetric] None ml] obtain segs rest where
        a: "trace s' = trace t @ concat segs @ rest"
        and b: "int (length segs) = itt s' - itt t"
        and c: "\<forall>seg\<in>set segs. in_spec_order (conf t) seg \<and> precedes Momentum Thermodynamics seg"
        and d: "case r of None \<Rightarrow> rest = []
            | Some e \<Rightarrow> \<exists>p. rest = p @ [Panic_snap] \<and> sorted_wrt before p"
        by blast
      let ?seg = "?cs @ [Shift_time]"
      have "trace s' = trace s @ concat (?seg # segs) @ rest" using a tr by simp
      moreover have "int (length (?seg # segs)) = itt s' - itt s" using b it by simp
      moreover have "\<forall>seg\<in>set (?seg # segs).
          in_spec_order (conf s) seg \<and> precedes Momentum Thermodynamics seg"
        using c cf step_in_spec_order [of "conf s" "is_bohrium s" "taup1 s"]
          step_precedes [of "conf s" "is_bohrium s" "taup1 s"] by simp
      ultimately show ?thesis using d by blast
    next
      case (Some e)
      from ts Some have fl: "snd (timestep ext s) = Some e" and t: "fst (timestep ext s) = t"
        by simp_all
      from "1.prems" True ts Some have s': "s' = t" and r: "r = Some e"
        by (simp_all add: main_loop.simps [of ext s])
      from timestep_fail(1) [OF fl] obtain e0 where
        e0: "snd (exec ext ?cs s) = Some e0" by blast
      from exec_trace_fail [OF e0] obtain n where
        n: "trace (fst (exec ext ?cs s)) = trace s @ take (Suc n) ?cs" by blast
      from timestep_fail(3,7) [OF fl] t n
      have tr: "trace t = trace s @ take (Suc n) ?cs @ [Panic_snap]" and it: "itt t = itt s"
        by simp_all
      have "sorted_wrt before ?cs"
        using step_sorted [of "conf s" "is_bohrium s" "taup1 s"] by (simp add: sorted_wrt_append)
      then have st: "sorted_wrt before (take (Suc n) ?cs)" by (rule sorted_wrt_take)
      have "trace s' = trace s @ concat [] @ (take (Suc n) ?cs @ [Panic_snap])"
        using tr s' by simp
      moreover have "int (length ([] :: stage list list)) = itt s' - itt s" using it s' by simp
      moreover have "\<exists>p. take (Suc n) ?cs @ [Panic_snap] = p @ [Panic_snap] \<and> sorted_wrt before p"
        using st by blast
      ultimately show ?thesis using r by (intro exI [of _ "[]"] exI [of _ "take (Suc n) ?cs @ [Panic_snap]"]) simp
    qed
  qed
qed

text \<open>
  Claim C1.  In every iteration of the main loop of \<open>run\<close> the stages execute in the fixed order
  forcing, closure parameters (IDEMIX, then EKE and TKE diffusivities), momentum,
  thermodynamics, velocity on the w grid when a closure is enabled, the enabled closures EKE,
  internal waves, TKE, the cyclic exchange, the rotation of the time levels; the tracer solve
  comes strictly after the momentum solve of the same step.  The trace that the loop adds
  splits into one segment per completed iteration, each in that order, followed, when the run
  ends with an exception, by the stages of the failed iteration (in order as far as it got)
  and the panic snapshot.
\<close>

theorem run_stage_order:
  "\<exists>segs rest.
      trace (fst (main_loop ext s)) = trace s @ concat segs @ rest
    \<and> int (length segs) = itt (fst (main_loop ext s)) - itt s
    \<and> (\<forall>seg\<in>set segs. in_spec_order (conf s) seg \<and> precedes Momentum Thermodynamics seg)
    \<and> (case snd (main_loop ext s) of None \<Rightarrow> rest = []
       | Some e \<Rightarrow> \<exists>p. rest = p @ [Panic_snap] \<and> sorted_wrt before p)"
  by (rule main_loop_trace) simp

theorem run_stage_order_witness:
  "snd (main_loop idle (sample_pyom\<lparr>enditt := 3\<rparr>)) = None
   \<and> (\<exists>segs. trace (fst (main_loop idle (sample_pyom\<lparr>enditt := 3\<rparr>))) = concat segs
        \<and> length segs = 2
        \<and> (\<forall>seg\<in>set segs. in_spec_order default_settings seg
                           \<and> precedes Momentum Thermodynamics seg))"
proof -
  let ?s = "sample_pyom\<lparr>enditt := 3\<rparr>"
  have ev: "snd (main_loop idle ?s) = None" "itt (fst (main_loop idle ?s)) = 3"
    by (simp_all add: main_loop.simps timestep_def sample_pyom_def PyOM_init_def
        default_settings_def timestep_stages_def idle_def invoke_def shift_time_def)
  have s: "itt ?s = 1" "trace ?s = []" "conf ?s = default_settings"
    by (simp_all add: sample_pyom_def PyOM_init_def)
  from run_stage_order [of idle ?s] obtain segs rest where
    "trace (fst (main_loop idle ?s)) = trace ?s @ concat segs @ rest"
    "int (length segs) = itt (fst (main_loop idle ?s)) - itt ?s"
    "\<forall>seg\<in>set segs. in_spec_order (conf ?s) seg \<and> precedes Momentum Thermodynamics seg"
    "case snd (main_loop idle ?s) of None \<Rightarrow> rest = []
       | Some e \<Rightarrow> \<exists>p. rest = p @ [Panic_snap] \<and> sorted_wrt before p"
    by blast
  with ev s have "trace (fst (main_loop idle ?s)) = concat segs \<and> length segs = 2
        \<and> (\<forall>seg\<in>set segs. in_spec_order default_settings seg
                           \<and> precedes Momentum Thermodynamics seg)"
    by simp
  with ev(1) show ?thesis by blast
qed


lemma invoke_levels: "levels (fst (invoke ext c s)) = fst (fst (ext c s))"
  by (simp add: invoke_def split: prod.splits)


lemma exec_levels:
  assumes "writes_next_only ext"
  shows "k \<noteq> taup1 s \<Longrightarrow> levels (fst (exec ext cs s)) f k = levels s f k"
proof (induction cs arbitrary: s)
  case Nil
  show ?case by simp
next
  case (Cons c cs)
  obtain t r where i: "invoke ext c s = (t, r)" by (cases "invoke ext c s")
  from i invoke_levels [of ext c s] have "levels t f k = fst (fst (ext c s)) f k" by simp
  with assms Cons.prems have l: "levels t f k = levels s f k"
    by (simp add: writes_next_only_def)
  from i invoke_frame(3) [of ext c s] have p: "taup1 t = taup1 s" by simp
  show ?case
  proof (cases r)
    case None
    from Cons.IH [of t] Cons.prems p have "levels (fst (exec ext cs t)) f k = levels t f k"
      by simp
    with i None l show ?thesis by simp
  next
    case (Some e)
    with i l show ?thesis by simp
  qed
qed


lemma exec_pointers: "pointers_ok (fst (exec ext cs s)) = pointers_ok s"
  using exec_frame [of ext cs s] by (simp add: pointers_ok_def)


lemma rotate_pointers:
  assumes "pointers_ok s" and "taum1 t = tau s" and "tau t = taup1 s" and "taup1 t = taum1 s"
  shows "pointers_ok t"
proof -
  from assms(1) have d: "distinct [taum1 s, tau s, taup1 s]"
    and e: "{taum1 s, tau s, taup1 s} = {0, 1, 2}"
    by (simp_all add: pointers_ok_def)
  from d have "distinct [tau s, taup1 s, taum1 s]" by auto
  moreover have "{tau s, taup1 s, taum1 s} = {taum1 s, tau s, taup1 s}" by blast
  ultimately show ?thesis using e assms(2,3,4) by (simp add: pointers_ok_def)
qed

lemma timestep_pointers:
  assumes "pointers_ok s"
  shows "pointers_ok (fst (timestep ext s))"
proof (cases "snd (timestep ext s)")
  case None
  from rotate_pointers [OF assms timestep_ok(4,5,6) [OF None]] show ?thesis .
next
  case (Some e)
  from timestep_fail(4,5,6) [OF Some] assms show ?thesis by (simp add: pointers_ok_def)
qed


lemma main_loop_pointers: "pointers_ok s \<Longrightarrow> pointers_ok (fst (main_loop ext s))"
proof (induction ext s rule: main_loop.induct)
  case (1 ext s)
  show ?case
  proof (cases "itt s < enditt s")
    case False
    with "1.prems" show ?thesis by (simp add: main_loop.simps [of ext s])
  next
    case True
    obtain t r where ts: "timestep ext s = (t, r)" by (cases "timestep ext s")
    from timestep_pointers [OF "1.prems", of ext] ts have pt: "pointers_ok t" by simp
    show ?thesis
    proof (cases r)
      case None
      from "1.IH" [OF True ts [symmetric] None pt] True ts None
      show ?thesis by (simp add: main_loop.simps [of ext s])
    next
      case (Some e)
      with True ts pt show ?thesis by (simp add: main_loop.simps [of ext s])
    qed
  qed
qed


lemma pyom_setup_frame:
  "taum1 (fst (pyom_setup ext setp s)) = taum1 s"
  "tau (fst (pyom_setup ext setp s)) = tau s"
  "taup1 (fst (pyom_setup ext setp s)) = taup1 s"
  "itt (fst (pyom_setup ext setp s)) = itt s"
proof -
  obtain c r where h: "setp s = (c, r)" by (cases "setp s")
  let ?s0 = "s\<lparr>conf := c, trace := trace s @ [Set_parameter]\<rparr>"
  obtain s1 r1 where e: "exec ext (setup_stages c) ?s0 = (s1, r1)"
    by (cases "exec ext (setup_stages c) ?s0")
  from exec_frame [of ext "setup_stages c" ?s0] e
  have s1: "taum1 s1 = taum1 s" "tau s1 = tau s" "taup1 s1 = taup1 s" "itt s1 = itt s"
    by simp_all
  have "fst (pyom_setup ext setp s) = ?s0 \<or> fst (pyom_setup ext setp s) = s1"
    using h e by (cases r; cases r1) (simp_all add: pyom_setup_def)
  with s1 show "taum1 (fst (pyom_setup ext setp s)) = taum1 s"
    "tau (fst (pyom_setup ext setp s)) = tau s"
    "taup1 (fst (pyom_setup ext setp s)) = taup1 s"
    "itt (fst (pyom_setup ext setp s)) = itt s"
    by auto
qed


lemma run_pointers:
  assumes "pointers_ok s"
  shows "pointers_ok (fst (run ext setp sn rl s))"
proof -
  let ?s0 = "s\<lparr>conf := (conf s)\<lparr>runlen := rl, snapint := sn\<rparr>\<rparr>"
  obtain s1 r1 where su: "pyom_setup ext setp ?s0 = (s1, r1)" by (cases "pyom_setup ext setp ?s0")
  from pyom_setup_frame(1,2,3) [of ext setp ?s0] su assms have p1: "pointers_ok s1"
    by (simp add: pointers_ok_def)
  obtain s2 r2 where re: "exec ext (restart_stages (conf s1)) s1 = (s2, r2)"
    by (cases "exec ext (restart_stages (conf s1)) s1")
  from exec_pointers [of ext "restart_stages (conf s1)" s1] re p1 have p2: "pointers_ok s2"
    by simp
  let ?s3 = "s2\<lparr>enditt := itt s2 + py_int (runlen (conf s2) / dt_tracer (conf s2))\<rparr>"
  from p2 have "pointers_ok ?s3" by (simp add: pointers_ok_def)
  from main_loop_pointers [OF this] have p3: "pointers_ok (fst (main_loop ext ?s3))" .
  show ?thesis
    using su re p1 p2 p3 by (cases r1; cases r2) (simp_all add: run_def)
qed


lemma after_steps_pointers:
  "pointers_ok s \<Longrightarrow> after_steps ext n s = Some t \<Longrightarrow> pointers_ok t"
proof (induction n arbitrary: t)
  case 0
  then show ?case by simp
next
  case (Suc n)
  from Suc.prems(2) obtain u where u: "after_steps ext n s = Some u"
    by (cases "after_steps ext n s") simp_all
  from Suc.IH [OF Suc.prems(1) u] have pu: "pointers_ok u" .
  from Suc.prems(2) u have "fst (timestep ext u) = t"
    by (auto split: prod.splits option.splits)
  with timestep_pointers [OF pu, of ext] show ?case by simp
qed


lemma step_values:
  assumes "pointers_ok t" and "snd (timestep ext t) = None" and "writes_next_only ext"
  shows "levels (fst (timestep ext t)) f (taum1 (fst (timestep ext t))) = levels t f (tau t)"
proof -
  let ?cs = "timestep_stages (conf t) (is_bohrium t) (taup1 t)"
  from assms(1) have ne: "tau t \<noteq> taup1 t" by (simp add: pointers_ok_def)
  from timestep_ok(2,4) [OF assms(2)]
  have "levels (fst (timestep ext t)) f (taum1 (fst (timestep ext t)))
      = levels (fst (exec ext ?cs t)) f (tau t)"
    by (simp add: shift_time_def)
  also from exec_levels [OF assms(3) ne] have "\<dots> = levels t f (tau t)" .
  finally show ?thesis .
qed


text \<open>A run of the loop that does not raise is the iteration of the loop body, \<open>enditt - itt\<close>
  times.\<close>

lemma after_steps_first:
  "after_steps ext (Suc n) s
     = (case timestep ext s of (t, None) \<Rightarrow> after_steps ext n t | (t, Some e) \<Rightarrow> None)"
proof (induction n)
  case 0
  show ?case by (simp split: prod.splits option.splits)
next
  case (Suc n)
  obtain t r where ts: "timestep ext s = (t, r)" by (cases "timestep ext s")
  show ?case
  proof (cases r)
    case None
    with ts Suc.IH have "after_steps ext (Suc n) s = after_steps ext n t" by simp
    then have "after_steps ext (Suc (Suc n)) s = after_steps ext (Suc n) t"
      by (simp del: after_steps.simps add: after_steps.simps(2) [of ext "Suc n"]
          after_steps.simps(2) [of ext n t])
    with ts None show ?thesis by simp
  next
    case (Some e)
    with ts Suc.IH have "after_steps ext (Suc n) s = None" by simp
    then have "after_steps ext (Suc (Suc n)) s = None"
      by (simp del: after_steps.simps add: after_steps.simps(2) [of ext "Suc n"])
    with ts Some show ?thesis by simp
  qed
qed

lemma main_loop_after_steps:
  "snd (main_loop ext s) = None \<Longrightarrow>
     after_steps ext (nat (enditt s - itt s)) s = Some (fst (main_loop ext s))"
proof (induction ext s rule: main_loop.induct)
  case (1 ext s)
  show ?case
  proof (cases "itt s < enditt s")
    case False
    then show ?thesis by (simp add: main_loop.simps [of ext s])
  next
    case True
    obtain t r where ts: "timestep ext s = (t, r)" by (cases "timestep ext s")
    from "1.prems" True ts have r: "r = None"
      by (cases r) (simp_all add: main_loop.simps [of ext s])
    from ts r timestep_ok(7,8) [of ext s] have it: "itt t = itt s + 1" "enditt t = enditt s"
      by simp_all
    from "1.prems" True ts r have "snd (main_loop ext t) = None"
      by (simp add: main_loop.simps [of ext s])
    from "1.IH" [OF True ts [symmetric] r this]
    have ih: "after_steps ext (nat (enditt t - itt t)) t = Some (fst (main_loop ext t))" .
    from True it have n: "nat (enditt s - itt s) = Suc (nat (enditt t - itt t))" by simp
    have "after_steps ext (nat (enditt s - itt s)) s = after_steps ext (nat (enditt t - itt t)) t"
      unfolding n after_steps_first using ts r by simp
    with ih True ts r show ?thesis by (simp add: main_loop.simps [of ext s])
  qed
qed

text \<open>
  Claim C2.  The time pointers start as \<open>(taum1, tau, taup1) = (0, 1, 2)\<close>.  The rotation at the
  end of a step only permutes them and touches no array: the new past pointer is the old
  current one, the new current pointer the old next one, the new next pointer the old past
  one.  So the pointers are a permutation of 0, 1, 2 with distinct entries at the end of every
  run and after every completed step, and, the called routines writing no time level but the
  next one, after step \<open>n + 1\<close> the past level holds what the current level held after
  step \<open>n\<close>.
\<close>

theorem time_level_rotation:
  "(taum1 (PyOM_init b l d), tau (PyOM_init b l d), taup1 (PyOM_init b l d)) = (0, 1, 2)
   \<and> levels (shift_time s) = levels s \<and> diag (shift_time s) = diag s
   \<and> taum1 (shift_time s) = tau s \<and> tau (shift_time s) = taup1 s
   \<and> taup1 (shift_time s) = taum1 s
   \<and> pointers_ok (fst (run ext setp sn rl (PyOM_init b l d)))
   \<and> (pointers_ok s0 \<longrightarrow> after_steps ext n s0 = Some t \<longrightarrow> pointers_ok t)
   \<and> (pointers_ok s0 \<longrightarrow> after_steps ext n s0 = Some t \<longrightarrow> after_steps ext (Suc n) s0 = Some t'
        \<longrightarrow> taum1 t' = tau t \<and> tau t' = taup1 t \<and> taup1 t' = taum1 t
            \<and> (writes_next_only ext \<longrightarrow> (\<forall>f. levels t' f (taum1 t') = levels t f (tau t))))"
proof -
  have init: "pointers_ok (PyOM_init b l d)"
    by (auto simp: pointers_ok_def PyOM_init_def)
  have a: "(taum1 (PyOM_init b l d), tau (PyOM_init b l d), taup1 (PyOM_init b l d)) = (0, 1, 2)"
    by (simp add: PyOM_init_def)
  have b: "levels (shift_time s) = levels s \<and> diag (shift_time s) = diag s
      \<and> taum1 (shift_time s) = tau s \<and> tau (shift_time s) = taup1 s
      \<and> taup1 (shift_time s) = taum1 s"
    by (simp add: shift_time_def)
  have c: "pointers_ok (fst (run ext setp sn rl (PyOM_init b l d)))"
    by (rule run_pointers [OF init])
  have d: "pointers_ok t" if "pointers_ok s0" "after_steps ext n s0 = Some t"
    using that by (rule after_steps_pointers)
  have e: "taum1 t' = tau t \<and> tau t' = taup1 t \<and> taup1 t' = taum1 t
            \<and> (writes_next_only ext \<longrightarrow> (\<forall>f. levels t' f (taum1 t') = levels t f (tau t)))"
    if h: "pointers_ok s0" "after_steps ext n s0 = Some t" "after_steps ext (Suc n) s0 = Some t'"
  proof -
    from h(2,3) have ok: "snd (timestep ext t) = None" and t': "fst (timestep ext t) = t'"
      by (auto split: prod.splits option.splits)
    from d [OF h(1,2)] have pt: "pointers_ok t" .
    from timestep_ok(4,5,6) [OF ok] t' step_values [OF pt ok] show ?thesis by auto
  qed
  from a b c d e show ?thesis by blast
qed

theorem time_level_rotation_witness:
  "pointers_ok (sample_pyom\<lparr>enditt := 3\<rparr>)
   \<and> writes_next_only (stamping :: (int, unit) routines)
   \<and> after_steps stamping (Suc 0) (sample_pyom\<lparr>enditt := 3\<rparr>) \<noteq> None
   \<and> after_steps stamping (Suc (Suc 0)) (sample_pyom\<lparr>enditt := 3\<rparr>) \<noteq> None
   \<and> tau (the (after_steps stamping (Suc 0) (sample_pyom\<lparr>enditt := 3\<rparr>))) = 2
   \<and> levels (the (after_steps stamping (Suc 0) (sample_pyom\<lparr>enditt := 3\<rparr>))) F_u 2 = 1
   \<and> taum1 (the (after_steps stamping (Suc (Suc 0)) (sample_pyom\<lparr>enditt := 3\<rparr>))) = 2
   \<and> levels (the (after_steps stamping (Suc (Suc 0)) (sample_pyom\<lparr>enditt := 3\<rparr>))) F_u 2 = 1"
proof -
  let ?s = "sample_pyom\<lparr>enditt := 3\<rparr>"
  let ?ext = "stamping :: (int, unit) routines"
  have p: "pointers_ok ?s"
    by (simp add: pointers_ok_def sample_pyom_def PyOM_init_def)
  have w: "writes_next_only ?ext"
    by (simp add: writes_next_only_def stamping_def)
  have a1: "after_steps ?ext (Suc 0) ?s \<noteq> None"
    by (simp add: timestep_def sample_pyom_def PyOM_init_def default_settings_def
        timestep_stages_def stamping_def invoke_def shift_time_def)
  have a2: "after_steps ?ext (Suc (Suc 0)) ?s \<noteq> None"
    by (simp add: timestep_def sample_pyom_def PyOM_init_def default_settings_def
        timestep_stages_def stamping_def invoke_def shift_time_def)
  have v: "tau (the (after_steps ?ext (Suc 0) ?s)) = 2"
    "levels (the (after_steps ?ext (Suc 0) ?s)) F_u 2 = 1"
    by (simp_all add: timestep_def sample_pyom_def PyOM_init_def default_settings_def
        timestep_stages_def stamping_def invoke_def shift_time_def)
  from a1 a2 obtain t t' where t: "after_steps ?ext (Suc 0) ?s = Some t"
    and t': "after_steps ?ext (Suc (Suc 0)) ?s = Some t'" by blast
  from time_level_rotation [of False "\<lambda>f k. 0" "()" t ?ext "sample_hook False False False" 0 0 ?s "Suc 0" t t'] p w t t'
  have "taum1 t' = tau t" "levels t' F_u (taum1 t') = levels t F_u (tau t)"
    by blast+
  with v t t' have "taum1 (the (after_steps ?ext (Suc (Suc 0)) ?s)) = 2"
    "levels (the (after_steps ?ext (Suc (Suc 0)) ?s)) F_u 2 = 1"
    by simp_all
  with p w a1 a2 v show ?thesis by blast
qed



lemma exchanged_append: "exchanged (xs @ ys) = exchanged xs @ exchanged ys"
  by (induction xs rule: exchanged.induct) simp_all

lemma exchanged_main_exchange:
  "exchanged (main_exchange c k)
     = map (\<lambda>f. (f, k))
         ([F_u, F_v] @ (if enable_tke c then [F_tke] else [])
          @ (if enable_eke c then [F_eke] else [])
          @ (if enable_idemix c then [F_E_iw] else [])
          @ (if enable_idemix_M2 c then [F_E_M2] else [])
          @ (if enable_idemix_niw c then [F_E_niw] else []))"
  by (simp add: main_exchange_def)

lemma exchanged_pre:
  "exchanged ([Set_forcing]
     @ (if enable_idemix c then [Set_idemix_parameter] else [])
     @ (if enable_idemix_M2 c \<or> enable_idemix_niw c then [Set_spectral_parameter] else [])
     @ [Set_eke_diffusivities, Set_tke_diffusivities, Momentum, Thermodynamics]
     @ (if enable_eke c \<or> enable_tke c \<or> enable_idemix c
        then [Calculate_velocity_on_wgrid] else [])
     @ (if enable_eke c then [Integrate_eke] else [])
     @ (if enable_idemix_M2 c then [Integrate_idemix_M2] else [])
     @ (if enable_idemix_niw c then [Integrate_idemix_niw] else [])
     @ (if enable_idemix c then [Integrate_idemix] else [])
     @ (if enable_idemix_M2 c \<or> enable_idemix_niw c then [Wave_interaction] else [])
     @ (if enable_tke c then [Integrate_tke] else [])) = []"
  by (simp add: exchanged_append)

lemma exchanged_post:
  "exchanged ((if enable_hydrostatic c then [Vertical_velocity] else [])
     @ (if b then [Np_flush] else []) @ [Diagnose]) = []"
  "set ((if enable_hydrostatic c then [Vertical_velocity] else [])
     @ (if b then [Np_flush] else []) @ [Diagnose]) \<subseteq> {Vertical_velocity, Np_flush, Diagnose}"
  by (auto simp: exchanged_append)

text \<open>
  Claim C4, as amended.  In every completed step the calls of \<open>setcyclic_x\<close> come after the
  solver and closure stages and before the rotation; when \<open>enable_cyclic_x\<close> is set they are
  applied, at the next time level \<open>taup1\<close> of that step, to \<open>u\<close>, \<open>v\<close> and the energy of each
  enabled closure (\<open>tke\<close>, \<open>eke\<close>, \<open>E_iw\<close>, \<open>E_M2\<close>, \<open>E_niw\<close>) and to nothing else, and when it is
  not set nothing is exchanged.  Temperature, salinity and density are not exchanged by
  \<open>run\<close>: the source says that this is done inside the tracer integration.
\<close>

theorem main_exchange_fields:
  assumes "snd (timestep ext s) = None"
  shows "\<exists>pre post.
           trace (fst (timestep ext s))
             = trace s @ pre
               @ (if enable_cyclic_x (conf s) then main_exchange (conf s) (taup1 s) else [])
               @ post @ [Shift_time]
         \<and> Momentum \<in> set pre \<and> Thermodynamics \<in> set pre
         \<and> exchanged pre = [] \<and> exchanged post = []
         \<and> set post \<subseteq> {Vertical_velocity, Np_flush, Diagnose}
         \<and> exchanged (drop (length (trace s)) (trace (fst (timestep ext s))))
             = (if enable_cyclic_x (conf s)
                then map (\<lambda>f. (f, taup1 s))
                       ([F_u, F_v] @ (if enable_tke (conf s) then [F_tke] else [])
                        @ (if enable_eke (conf s) then [F_eke] else [])
                        @ (if enable_idemix (conf s) then [F_E_iw] else [])
                        @ (if enable_idemix_M2 (conf s) then [F_E_M2] else [])
                        @ (if enable_idemix_niw (conf s) then [F_E_niw] else []))
                else [])
         \<and> (F_temp, taup1 s) \<notin> set (exchanged (drop (length (trace s)) (trace (fst (timestep ext s)))))
         \<and> (F_salt, taup1 s) \<notin> set (exchanged (drop (length (trace s)) (trace (fst (timestep ext s)))))
         \<and> (F_rho, taup1 s) \<notin> set (exchanged (drop (length (trace s)) (trace (fst (timestep ext s)))))"
proof -
  let ?c = "conf s" and ?k = "taup1 s" and ?b = "is_bohrium s"
  let ?pre = "[Set_forcing]
     @ (if enable_idemix ?c then [Set_idemix_parameter] else [])
     @ (if enable_idemix_M2 ?c \<or> enable_idemix_niw ?c then [Set_spectral_parameter] else [])
     @ [Set_eke_diffusivities, Set_tke_diffusivities, Momentum, Thermodynamics]
     @ (if enable_eke ?c \<or> enable_tke ?c \<or> enable_idemix ?c
        then [Calculate_velocity_on_wgrid] else [])
     @ (if enable_eke ?c then [Integrate_eke] else [])
     @ (if enable_idemix_M2 ?c then [Integrate_idemix_M2] else [])
     @ (if enable_idemix_niw ?c then [Integrate_idemix_niw] else [])
     @ (if enable_idemix ?c then [Integrate_idemix] else [])
     @ (if enable_idemix_M2 ?c \<or> enable_idemix_niw ?c then [Wave_interaction] else [])
     @ (if enable_tke ?c then [Integrate_tke] else [])"
  let ?X = "if enable_cyclic_x ?c then main_exchange ?c ?k else []"
  let ?post = "(if enable_hydrostatic ?c then [Vertical_velocity] else [])
     @ (if ?b then [Np_flush] else []) @ [Diagnose]"
  let ?tr = "drop (length (trace s)) (trace (fst (timestep ext s)))"
  have eq: "timestep_stages ?c ?b ?k = ?pre @ ?X @ ?post"
    by (simp add: timestep_stages_def split del: if_split)
  with timestep_ok(3) [OF assms]
  have tr: "trace (fst (timestep ext s)) = trace s @ ?pre @ ?X @ ?post @ [Shift_time]"
    by (simp split del: if_split)
  then have dr: "?tr = ?pre @ ?X @ ?post @ [Shift_time]"
    by (simp split del: if_split)
  have m: "Momentum \<in> set ?pre" "Thermodynamics \<in> set ?pre" by simp_all
  have ex: "exchanged ?tr = exchanged ?X"
    unfolding dr exchanged_append exchanged_pre exchanged_post(1) by simp
  have X: "exchanged ?X = (if enable_cyclic_x ?c
                then map (\<lambda>f. (f, ?k))
                       ([F_u, F_v] @ (if enable_tke ?c then [F_tke] else [])
                        @ (if enable_eke ?c then [F_eke] else [])
                        @ (if enable_idemix ?c then [F_E_iw] else [])
                        @ (if enable_idemix_M2 ?c then [F_E_M2] else [])
                        @ (if enable_idemix_niw ?c then [F_E_niw] else []))
                else [])"
    by (cases "enable_cyclic_x ?c") (simp_all only: exchanged_main_exchange if_True if_False exchanged.simps)
  have no: "(F_temp, ?k) \<notin> set (exchanged ?X)" "(F_salt, ?k) \<notin> set (exchanged ?X)"
    "(F_rho, ?k) \<notin> set (exchanged ?X)"
    unfolding X by auto
  from tr m exchanged_pre [of ?c] exchanged_post [of ?c ?b] ex X no
  show ?thesis
    by (intro exI [of _ ?pre] exI [of _ ?post]) (simp only: simp_thms)
qed

theorem main_exchange_fields_witness:
  "snd (timestep idle
         (sample_pyom\<lparr>conf := default_settings\<lparr>enable_cyclic_x := True, enable_tke := True\<rparr>\<rparr>))
     = None
   \<and> exchanged (trace (fst (timestep idle
         (sample_pyom\<lparr>conf := default_settings\<lparr>enable_cyclic_x := True, enable_tke := True\<rparr>\<rparr>))))
     = [(F_u, 2), (F_v, 2), (F_tke, 2)]"
proof -
  let ?s = "sample_pyom\<lparr>conf := default_settings\<lparr>enable_cyclic_x := True, enable_tke := True\<rparr>\<rparr>"
  let ?ext = "idle :: (int, unit) routines"
  have ok: "snd (timestep ?ext ?s) = None"
    by (simp add: timestep_def sample_pyom_def PyOM_init_def default_settings_def
        timestep_stages_def main_exchange_def idle_def invoke_def shift_time_def)
  have c: "trace ?s = []" "taup1 ?s = 2" "enable_cyclic_x (conf ?s)" "enable_tke (conf ?s)"
    "\<not> enable_eke (conf ?s)" "\<not> enable_idemix (conf ?s)" "\<not> enable_idemix_M2 (conf ?s)"
    "\<not> enable_idemix_niw (conf ?s)"
    by (simp_all add: sample_pyom_def PyOM_init_def default_settings_def)
  from main_exchange_fields [OF ok] obtain pre post where
    "exchanged (drop (length (trace ?s)) (trace (fst (timestep ?ext ?s))))
             = (if enable_cyclic_x (conf ?s)
                then map (\<lambda>f. (f, taup1 ?s))
                       ([F_u, F_v] @ (if enable_tke (conf ?s) then [F_tke] else [])
                        @ (if enable_eke (conf ?s) then [F_eke] else [])
                        @ (if enable_idemix (conf ?s) then [F_E_iw] else [])
                        @ (if enable_idemix_M2 (conf ?s) then [F_E_M2] else [])
                        @ (if enable_idemix_niw (conf ?s) then [F_E_niw] else []))
                else [])"
    by blast
  then have "exchanged (trace (fst (timestep ?ext ?s))) = [(F_u, 2), (F_v, 2), (F_tke, 2)]"
    using c by simp
  with ok show ?thesis by blast
qed

text \<open>The claim as it was stated fails: the thermodynamics writes the next temperature, and
  \<open>run\<close> does not hand the temperature to \<open>setcyclic_x\<close>.\<close>

theorem exchange_covers_written_counterexample:
  "snd (timestep idle (sample_pyom\<lparr>conf := default_settings\<lparr>enable_cyclic_x := True\<rparr>\<rparr>)) = None
   \<and> \<not> exchange_covers_written
        (trace (fst (timestep idle
           (sample_pyom\<lparr>conf := default_settings\<lparr>enable_cyclic_x := True\<rparr>\<rparr>)))) 2"
  by (simp add: exchange_covers_written_def timestep_def sample_pyom_def PyOM_init_def
      default_settings_def timestep_stages_def main_exchange_def idle_def invoke_def
      shift_time_def)

lemma exec_trace_take: "\<exists>n. trace (fst (exec ext cs s)) = trace s @ take n cs"
proof (cases "snd (exec ext cs s)")
  case None
  from exec_trace_ok [OF None] have "trace (fst (exec ext cs s)) = trace s @ take (length cs) cs"
    by simp
  then show ?thesis by blast
next
  case (Some e)
  from exec_trace_fail [OF Some] show ?thesis by blast
qed

lemma setup_stages_members:
  "Momentum \<notin> set (Set_parameter # setup_stages c)"
  "Thermodynamics \<notin> set (Set_parameter # setup_stages c)"
  "Shift_time \<notin> set (Set_parameter # setup_stages c)"
  by (simp_all add: setup_stages_def)

text \<open>
  Claim C5.  When \<open>set_parameter\<close> leaves \<open>enable_tke\<close> set and
  \<open>enable_implicit_vert_friction\<close> not set, \<open>setup\<close> raises: the \<open>RuntimeError\<close> of its
  configuration check whenever the initialisation calls before the check all return, and
  whatever one of them raised otherwise.  \<open>run\<close> calls \<open>setup\<close> first and ends with that
  exception: the step counter stays where it was and no stage of a time step (no momentum, no
  thermodynamics, no rotation) is ever run.
\<close>

theorem tke_needs_implicit_friction:
  assumes "s0 = s\<lparr>conf := (conf s)\<lparr>runlen := rl, snapint := sn\<rparr>\<rparr>"
    and "c = fst (setp s0)"
    and "enable_tke c" and "\<not> enable_implicit_vert_friction c"
  shows "snd (pyom_setup ext setp s0) \<noteq> None
       \<and> (snd (setp s0) = None
            \<and> snd (exec ext (setup_stages c) (s0\<lparr>conf := c, trace := trace s0 @ [Set_parameter]\<rparr>))
                = None
          \<longrightarrow> snd (pyom_setup ext setp s0) = Some RuntimeError)
       \<and> run ext setp sn rl s = pyom_setup ext setp s0
       \<and> itt (fst (run ext setp sn rl s)) = itt s
       \<and> (\<exists>n. trace (fst (run ext setp sn rl s))
                = trace s @ take n (Set_parameter # setup_stages c))
       \<and> Momentum \<notin> set (drop (length (trace s)) (trace (fst (run ext setp sn rl s))))
       \<and> Thermodynamics \<notin> set (drop (length (trace s)) (trace (fst (run ext setp sn rl s))))
       \<and> Shift_time \<notin> set (drop (length (trace s)) (trace (fst (run ext setp sn rl s))))"
proof -
  obtain r where h: "setp s0 = (c, r)" using assms(2) by (cases "setp s0") simp
  let ?s1 = "s0\<lparr>conf := c, trace := trace s0 @ [Set_parameter]\<rparr>"
  obtain s2 r2 where e: "exec ext (setup_stages c) ?s1 = (s2, r2)"
    by (cases "exec ext (setup_stages c) ?s1")
  from exec_frame [of ext "setup_stages c" ?s1] e have c2: "conf s2 = c" by simp
  have su: "pyom_setup ext setp s0
      = (case r of Some e \<Rightarrow> (?s1, Some e)
         | None \<Rightarrow> (case r2 of Some e \<Rightarrow> (s2, Some e) | None \<Rightarrow> (s2, Some RuntimeError)))"
    using h e c2 assms(3,4) by (cases r; cases r2) (simp_all add: pyom_setup_def)
  then have a: "snd (pyom_setup ext setp s0) \<noteq> None"
    by (cases r; cases r2) simp_all
  have b: "snd (setp s0) = None \<and> snd (exec ext (setup_stages c) ?s1) = None
          \<longrightarrow> snd (pyom_setup ext setp s0) = Some RuntimeError"
    using su h e by (cases r; cases r2) simp_all
  from a obtain e' where "snd (pyom_setup ext setp s0) = Some e'" by blast
  then have cc: "run ext setp sn rl s = pyom_setup ext setp s0"
    unfolding assms(1) by (cases "pyom_setup ext setp (s\<lparr>conf := (conf s)\<lparr>runlen := rl, snapint := sn\<rparr>\<rparr>)")
      (simp add: run_def)
  from pyom_setup_frame(4) [of ext setp s0] cc assms(1)
  have d: "itt (fst (run ext setp sn rl s)) = itt s" by simp
  from exec_trace_take [of ext "setup_stages c" ?s1] e obtain n where
    n: "trace s2 = trace ?s1 @ take n (setup_stages c)" by auto
  have "trace (fst (pyom_setup ext setp s0)) = trace ?s1 \<or> trace (fst (pyom_setup ext setp s0)) = trace s2"
    using su by (cases r; cases r2) simp_all
  then have "\<exists>m. trace (fst (pyom_setup ext setp s0))
      = trace s @ take m (Set_parameter # setup_stages c)"
  proof
    assume "trace (fst (pyom_setup ext setp s0)) = trace ?s1"
    then have "trace (fst (pyom_setup ext setp s0))
        = trace s @ take (Suc 0) (Set_parameter # setup_stages c)"
      using assms(1) by simp
    then show ?thesis by blast
  next
    assume "trace (fst (pyom_setup ext setp s0)) = trace s2"
    with n have "trace (fst (pyom_setup ext setp s0))
        = trace s @ take (Suc n) (Set_parameter # setup_stages c)"
      using assms(1) by simp
    then show ?thesis by blast
  qed
  then obtain m where m: "trace (fst (run ext setp sn rl s))
      = trace s @ take m (Set_parameter # setup_stages c)"
    using cc by auto
  then have dr: "drop (length (trace s)) (trace (fst (run ext setp sn rl s)))
      = take m (Set_parameter # setup_stages c)" by simp
  have f: "Momentum \<notin> set (take m (Set_parameter # setup_stages c))"
    "Thermodynamics \<notin> set (take m (Set_parameter # setup_stages c))"
    "Shift_time \<notin> set (take m (Set_parameter # setup_stages c))"
    using setup_stages_members [of c] by (blast dest: in_set_takeD)+
  from a b cc d m f show ?thesis unfolding dr by blast
qed

theorem tke_needs_implicit_friction_witness:
  "enable_tke (fst (sample_hook False True False
                     (sample_pyom\<lparr>conf := (conf sample_pyom)\<lparr>runlen := 10, snapint := 0\<rparr>\<rparr>)))
   \<and> \<not> enable_implicit_vert_friction (fst (sample_hook False True False
                     (sample_pyom\<lparr>conf := (conf sample_pyom)\<lparr>runlen := 10, snapint := 0\<rparr>\<rparr>)))
   \<and> snd (run idle (sample_hook False True False) 0 10 sample_pyom) = Some RuntimeError
   \<and> itt (fst (run idle (sample_hook False True False) 0 10 sample_pyom)) = 1
   \<and> Momentum \<notin> set (trace (fst (run idle (sample_hook False True False) 0 10 sample_pyom)))"
proof -
  let ?s0 = "sample_pyom\<lparr>conf := (conf sample_pyom)\<lparr>runlen := 10, snapint := 0\<rparr>\<rparr>"
  let ?setp = "sample_hook False True False :: (int, unit) hook"
  let ?ext = "idle :: (int, unit) routines"
  let ?c = "fst (?setp ?s0)"
  have h1: "enable_tke ?c" and h2: "\<not> enable_implicit_vert_friction ?c"
    by (simp_all add: sample_hook_def sample_pyom_def PyOM_init_def default_settings_def)
  have h3: "snd (?setp ?s0) = None" by (simp add: sample_hook_def)
  have h4: "snd (exec ?ext (setup_stages ?c) (?s0\<lparr>conf := ?c, trace := trace ?s0 @ [Set_parameter]\<rparr>))
      = None"
    by (simp add: setup_stages_def sample_hook_def sample_pyom_def PyOM_init_def
        default_settings_def idle_def invoke_def)
  have t: "trace sample_pyom = []" "itt sample_pyom = 1"
    by (simp_all add: sample_pyom_def PyOM_init_def)
  note th = tke_needs_implicit_friction [where s = sample_pyom and rl = 10 and sn = 0
      and setp = ?setp and ext = ?ext, OF refl refl h1 h2]
  from th h3 h4 have "snd (pyom_setup ?ext ?setp ?s0) = Some RuntimeError" by blast
  moreover from th have "run ?ext ?setp 0 10 sample_pyom = pyom_setup ?ext ?setp ?s0"
    and "itt (fst (run ?ext ?setp 0 10 sample_pyom)) = itt sample_pyom"
    and "Momentum \<notin> set (drop (length (trace sample_pyom))
           (trace (fst (run ?ext ?setp 0 10 sample_pyom))))"
    by blast+
  ultimately have "snd (run ?ext ?setp 0 10 sample_pyom) = Some RuntimeError
    \<and> itt (fst (run ?ext ?setp 0 10 sample_pyom)) = 1
    \<and> Momentum \<notin> set (trace (fst (run ?ext ?setp 0 10 sample_pyom)))"
    using t by simp
  with h1 h2 show ?thesis by blast
qed

section \<open>Properties of the global one-degree setup\<close>

lemma ic_wind_stress_frame:
  "m_temp (ic_wind_stress cyc f s) = m_temp s"
  "m_salt (ic_wind_stress cyc f s) = m_salt s"
  "m_nz (ic_wind_stress cyc f s) = m_nz s"
  "m_enable_idemix (ic_wind_stress cyc f s) = m_enable_idemix s"
  "m_forc_iw_bottom (ic_wind_stress cyc f s) = m_forc_iw_bottom s"
  by (simp_all add: ic_wind_stress_def Let_def)

lemma ic_tracers_frame:
  "m_nz (ic_tracers f s) = m_nz s"
  "m_enable_idemix (ic_tracers f s) = m_enable_idemix s"
  "m_forc_iw_bottom (ic_tracers f s) = m_forc_iw_bottom s"
  by (simp_all add: ic_tracers_def)

lemma ic_surface_fluxes_frame:
  "m_temp (ic_surface_fluxes f s) = m_temp s"
  "m_salt (ic_surface_fluxes f s) = m_salt s"
  "m_enable_idemix (ic_surface_fluxes f s) = m_enable_idemix s"
  "m_forc_iw_bottom (ic_surface_fluxes f s) = m_forc_iw_bottom s"
  by (simp_all add: ic_surface_fluxes_def)

lemma ic_tidal_frame:
  "m_temp (fst (ic_tidal f s)) = m_temp s"
  "m_salt (fst (ic_tidal f s)) = m_salt s"
  by (simp_all add: ic_tidal_def Let_def read_local_def)

lemma ic_wind_frame:
  "m_temp (ic_wind f s) = m_temp s"
  "m_salt (ic_wind f s) = m_salt s"
  by (simp_all add: ic_wind_def Let_def)

lemma ic_shortwave_frame:
  "m_temp (ic_shortwave s) = m_temp s"
  "m_salt (ic_shortwave s) = m_salt s"
  by (simp_all add: ic_shortwave_def Let_def)

lemma set_initial_conditions_tracers:
  "m_temp (fst (set_initial_conditions cyc f s)) = m_temp (ic_tracers f s)"
  "m_salt (fst (set_initial_conditions cyc f s)) = m_salt (ic_tracers f s)"
proof -
  let ?s2 = "ic_wind_stress cyc f (ic_tracers f s)"
  let ?s3 = "ic_surface_fluxes f ?s2"
  obtain s4 r where t: "ic_tidal f ?s3 = (s4, r)" by (cases "ic_tidal f ?s3")
  from ic_tidal_frame [of f ?s3] t
  have s4: "m_temp s4 = m_temp (ic_tracers f s)" "m_salt s4 = m_salt (ic_tracers f s)"
    by (simp_all add: ic_surface_fluxes_frame ic_wind_stress_frame)
  have "fst (set_initial_conditions cyc f s) = ?s2
      \<or> fst (set_initial_conditions cyc f s) = s4
      \<or> fst (set_initial_conditions cyc f s) = ic_wind f s4
      \<or> fst (set_initial_conditions cyc f s) = ic_shortwave (ic_wind f s4)"
    using t by (cases r) (simp_all add: set_initial_conditions_def Let_def)
  with s4 show "m_temp (fst (set_initial_conditions cyc f s)) = m_temp (ic_tracers f s)"
    "m_salt (fst (set_initial_conditions cyc f s)) = m_salt (ic_tracers f s)"
    by (auto simp: ic_wind_stress_frame ic_wind_frame ic_shortwave_frame)
qed

text \<open>
  Claim C6.  After \<open>set_initial_conditions\<close>, whether it returns or raises, temperature and
  salinity are zero at every land cell (\<open>maskT = 0\<close>) in the time levels 0 and 1: in the
  interior because the file values are multiplied with the mask, in the halo, which the
  function does not write, because the arrays were zero there before.
\<close>

theorem initial_tracers_masked:
  assumes "k < m_nz s" and "t = 0 \<or> t = 1" and "m_maskT s i j k = 0"
    and "\<not> interior (m_nx s) (m_ny s) i j \<longrightarrow> m_temp s i j k t = 0 \<and> m_salt s i j k t = 0"
  shows "m_temp (fst (set_initial_conditions cyc f s)) i j k t = 0
       \<and> m_salt (fst (set_initial_conditions cyc f s)) i j k t = 0"
proof (cases "interior (m_nx s) (m_ny s) i j")
  case True
  then have "i - 2 + 2 = i" "j - 2 + 2 = j" unfolding interior_def by linarith+
  with True assms(1,2,3) show ?thesis
    unfolding set_initial_conditions_tracers
    by (auto simp: ic_tracers_def assign_level_def masked_reversed_def)
next
  case False
  with assms(4) show ?thesis
    unfolding set_initial_conditions_tracers
    by (auto simp: ic_tracers_def assign_level_def)
qed

theorem initial_tracers_masked_witness:
  "m_maskT (sample_grid 12 True) 50 60 3 = 0
   \<and> interior (m_nx (sample_grid 12 True)) (m_ny (sample_grid 12 True)) 50 60
   \<and> temperature_data sample_files 48 58 8 * 1 = 20
   \<and> m_temp (fst (set_initial_conditions no_exchange sample_files (sample_grid 12 True))) 50 60 3 1 = 0
   \<and> m_salt (fst (set_initial_conditions no_exchange sample_files (sample_grid 12 True))) 50 60 3 0 = 0
   \<and> m_temp (fst (set_initial_conditions no_exchange sample_files (sample_grid 12 True))) 150 60 3 1 = 20"
proof -
  let ?s = "sample_grid 12 True"
  have h: "(3::nat) < m_nz ?s" "m_maskT ?s 50 60 3 = 0" "interior (m_nx ?s) (m_ny ?s) 50 60"
    by (simp_all add: sample_grid_def interior_def)
  have d: "temperature_data sample_files 48 58 8 * 1 = 20" by (simp add: sample_files_def)
  from initial_tracers_masked [of 3 ?s 1 50 60 no_exchange sample_files] h
  have a: "m_temp (fst (set_initial_conditions no_exchange sample_files ?s)) 50 60 3 1 = 0"
    by simp
  from initial_tracers_masked [of 3 ?s 0 50 60 no_exchange sample_files] h
  have b: "m_salt (fst (set_initial_conditions no_exchange sample_files ?s)) 50 60 3 0 = 0"
    by simp
  have c: "m_temp (fst (set_initial_conditions no_exchange sample_files ?s)) 150 60 3 1 = 20"
    unfolding set_initial_conditions_tracers
    by (simp add: ic_tracers_def assign_level_def masked_reversed_def sample_grid_def
        sample_files_def interior_def)
  from h d a b c show ?thesis by blast
qed

text \<open>
  Claim C9, on the code.  With \<open>enable_idemix\<close> disabled (and a number of levels for which the
  earlier statements do not fail) \<open>set_initial_conditions\<close> reaches the \<open>else\<close> branch, where
  the name \<open>tidal_energy_data\<close> is not bound: it raises \<open>NameError\<close> and leaves
  \<open>forc_iw_bottom\<close> as it was.
\<close>

theorem initial_conditions_name_error:
  assumes "\<not> m_enable_idemix s" and "m_nz s = 1 \<or> 12 \<le> m_nz s"
  shows "snd (set_initial_conditions cyc f s) = Some NameError
       \<and> m_forc_iw_bottom (fst (set_initial_conditions cyc f s)) = m_forc_iw_bottom s"
proof -
  let ?s2 = "ic_wind_stress cyc f (ic_tracers f s)"
  let ?s3 = "ic_surface_fluxes f ?s2"
  have nz: "m_nz ?s2 = m_nz s" and id: "\<not> m_enable_idemix ?s3"
    and fb: "m_forc_iw_bottom ?s3 = m_forc_iw_bottom s"
    using assms(1)
    by (simp_all add: ic_wind_stress_frame ic_tracers_frame ic_surface_fluxes_frame)
  from id have t: "ic_tidal f ?s3 = (?s3, Some NameError)"
    by (simp add: ic_tidal_def read_local_def)
  from assms(2) nz have "\<not> (m_nz ?s2 \<noteq> 1 \<and> m_nz ?s2 < 12)" by auto
  with t have "set_initial_conditions cyc f s = (?s3, Some NameError)"
    by (simp add: set_initial_conditions_def Let_def)
  with fb show ?thesis by simp
qed

theorem initial_conditions_name_error_witness:
  "\<not> m_enable_idemix (sample_grid 12 False)
   \<and> (m_nz (sample_grid 12 False) = 1 \<or> 12 \<le> m_nz (sample_grid 12 False))
   \<and> snd (set_initial_conditions no_exchange sample_files (sample_grid 12 False)) = Some NameError
   \<and> m_forc_iw_bottom (fst (set_initial_conditions no_exchange sample_files (sample_grid 12 False))) 50 60
       = 0"
proof -
  let ?s = "sample_grid 12 False"
  have h: "\<not> m_enable_idemix ?s" "m_nz ?s = 1 \<or> 12 \<le> m_nz ?s"
    by (simp_all add: sample_grid_def)
  have z: "m_forc_iw_bottom ?s 50 60 = 0" by (simp add: sample_grid_def)
  from initial_conditions_name_error [OF h, of no_exchange sample_files] z
  have "snd (set_initial_conditions no_exchange sample_files ?s) = Some NameError
    \<and> m_forc_iw_bottom (fst (set_initial_conditions no_exchange sample_files ?s)) 50 60 = 0"
    by simp
  with h show ?thesis by blast
qed

lemma fold_mark_level_nonneg:
  "0 \<le> kb i j \<Longrightarrow> 0 \<le> fold (mark_level s f) ks kb i j"
proof (induction ks arbitrary: kb)
  case Nil
  then show ?case by simp
next
  case (Cons k ks)
  from Cons.prems have "0 \<le> mark_level s f k kb i j" by (simp add: mark_level_def)
  from Cons.IH [of "mark_level s f k kb", OF this] show ?case by simp
qed

text \<open>
  Claim C10.  After \<open>set_topography\<close> every entry of \<open>kbot\<close> is an integer between 0 and
  \<open>nz\<close>, the entries having been non-negative before (zero, as \<open>allocate\<close> leaves them), and the
  cells of the three closed channels are 0.
\<close>

theorem kbot_range:
  assumes "0 \<le> m_kbot s i j"
  shows "0 \<le> m_kbot (set_topography f s) i j
       \<and> m_kbot (set_topography f s) i j \<le> int (m_nz s)
       \<and> (interior (m_nx s) (m_ny s) i j
            \<and> (channel1 (i - 2) (j - 2) \<or> channel2 (i - 2) (j - 2) \<or> channel3 (i - 2) (j - 2))
          \<longrightarrow> m_kbot (set_topography f s) i j = 0)"
proof -
  let ?kb1 = "fold (mark_level s f) (rev [0..<m_nz s]) (m_kbot s)"
  from fold_mark_level_nonneg [of "m_kbot s" i j s f "rev [0..<m_nz s]", OF assms]
  have "0 \<le> ?kb1 i j" .
  then show ?thesis
    by (auto simp: set_topography_def Let_def close_cells_def)
qed

theorem kbot_range_witness:
  "0 \<le> m_kbot (sample_grid 2 True) 300 100
   \<and> m_kbot (set_topography sample_files (sample_grid 2 True)) 300 100 = 1
   \<and> 0 \<le> m_kbot (sample_grid 2 True) 209 3
   \<and> interior (m_nx (sample_grid 2 True)) (m_ny (sample_grid 2 True)) 209 3
   \<and> channel1 (209 - 2) (3 - 2)
   \<and> m_kbot (set_topography sample_files (sample_grid 2 True)) 209 3 = 0"
proof -
  let ?s = "sample_grid 2 True"
  have h: "0 \<le> m_kbot ?s 300 100" "0 \<le> m_kbot ?s 209 3"
    "interior (m_nx ?s) (m_ny ?s) 209 3" "channel1 (209 - 2) (3 - 2)"
    by (simp_all add: sample_grid_def interior_def channel1_def)
  have r: "rev [0..<m_nz ?s] = [1, 0]"
    by (simp add: sample_grid_def numeral_2_eq_2)
  have a: "m_kbot (set_topography sample_files ?s) 300 100 = 1"
    unfolding set_topography_def Let_def r
    by (simp add: close_cells_def mark_level_def sample_grid_def
        sample_files_def interior_def channel1_def channel2_def channel3_def)
  from kbot_range [OF h(2), of sample_files] h(3,4)
  have b: "m_kbot (set_topography sample_files ?s) 209 3 = 0" by blast
  from h a b show ?thesis by blast
qed

section \<open>Properties of the tracer monitor\<close>

lemma np_sum_cells: "np_sum vs a = (\<Sum>(i, j, k)\<in>cells vs. a i j k)"
proof -
  have "np_sum vs a
      = (\<Sum>i\<in>{2..<vs_nx vs + 2}. \<Sum>j\<in>{2..<vs_ny vs + 2}. \<Sum>k\<in>{0..<vs_nz vs}. a i j k)"
    by (simp add: np_sum_def interv_sum_list_conv_sum_set_nat)
  also have "\<dots> = (\<Sum>i\<in>{2..<vs_nx vs + 2}.
      \<Sum>(j, k)\<in>{2..<vs_ny vs + 2} \<times> {0..<vs_nz vs}. a i j k)"
    by (simp add: sum.cartesian_product)
  also have "\<dots> = (\<Sum>(i, j, k)\<in>cells vs. a i j k)"
    by (simp add: sum.cartesian_product cells_def)
  finally show ?thesis .
qed

lemma np_sum_content:
  "np_sum vs (\<lambda>i j k. cell_volume vs i j k * q i j k) = spec_content vs q"
  unfolding np_sum_cells spec_content_def cell_volume_def ..

lemma land_contributes_nothing: "spec_content vs q = ocean_content vs q"
  unfolding spec_content_def ocean_content_def
proof (rule sum.mono_neutral_right)
  show "finite (cells vs)" by (simp add: cells_def)
  show "{c \<in> cells vs. vs_maskT vs (fst c) (fst (snd c)) (snd (snd c)) \<noteq> 0} \<subseteq> cells vs"
    by blast
  show "\<forall>c\<in>cells vs - {c \<in> cells vs. vs_maskT vs (fst c) (fst (snd c)) (snd (snd c)) \<noteq> 0}.
      (case c of (i, j, k) \<Rightarrow> vs_area_t vs i j * vs_dzt vs k * vs_maskT vs i j k * q i j k) = 0"
    by auto
qed

text \<open>
  Claim C7.  \<open>TracerMonitor.output\<close> computes, for temperature and salinity at the current
  time level \<open>tau\<close> and for their squares, the volume integral of the specification, the sum
  of \<open>cell_volume * tracer\<close> over the interior cells with \<open>cell_volume = area_t \<cdot> dzt \<cdot> maskT\<close>
  (passed through \<open>global_sum\<close>); land cells contribute nothing to any of these sums; the
  logged means are these sums divided by the total volume; and afterwards \<open>tempm1\<close>, \<open>saltm1\<close>,
  \<open>vtemp1\<close>, \<open>vsalt1\<close> hold the sums just computed.
\<close>

theorem tracer_monitor_content:
  "tempm1 (snd (tracer_output gs vs tracer))
     = gs (spec_content vs (\<lambda>i j k. vs_temp vs i j k (vs_tau vs)))
   \<and> saltm1 (snd (tracer_output gs vs tracer))
     = gs (spec_content vs (\<lambda>i j k. vs_salt vs i j k (vs_tau vs)))
   \<and> vtemp1 (snd (tracer_output gs vs tracer))
     = gs (spec_content vs (\<lambda>i j k. (vs_temp vs i j k (vs_tau vs))\<^sup>2))
   \<and> vsalt1 (snd (tracer_output gs vs tracer))
     = gs (spec_content vs (\<lambda>i j k. (vs_salt vs i j k (vs_tau vs))\<^sup>2))
   \<and> spec_content vs q = ocean_content vs q
   \<and> map fst (fst (tracer_output gs vs tracer))
     = [tempm1 (snd (tracer_output gs vs tracer)) / gs (spec_content vs (\<lambda>i j k. 1)),
        saltm1 (snd (tracer_output gs vs tracer)) / gs (spec_content vs (\<lambda>i j k. 1)),
        vtemp1 (snd (tracer_output gs vs tracer)) / gs (spec_content vs (\<lambda>i j k. 1)),
        vsalt1 (snd (tracer_output gs vs tracer)) / gs (spec_content vs (\<lambda>i j k. 1))]"
proof -
  have vol: "np_sum vs (cell_volume vs) = spec_content vs (\<lambda>i j k. 1)"
    using np_sum_content [of vs "\<lambda>i j k. 1"] by simp
  show ?thesis
    by (simp add: tracer_output_def Let_def np_sum_content vol land_contributes_nothing)
qed

text \<open>A grid of two columns, one of them land.\<close>

lemma tracer_output_example:
  "tracer_output (\<lambda>x. x)
     \<lparr>vs_nx = 2, vs_ny = 1, vs_nz = 1, vs_area_t = (\<lambda>i j. 10), vs_dzt = (\<lambda>k. 5),
      vs_maskT = (\<lambda>i j k. if i = 2 then 0 else 1), vs_temp = (\<lambda>i j k t. 3),
      vs_salt = (\<lambda>i j k t. 35), vs_tau = 1\<rparr>
     \<lparr>tempm1 = 100, vtemp1 = 0, saltm1 = 0, vsalt1 = 0\<rparr>
   = ([(3, 1), (35, 35), (9, 9), (1225, 1225)],
      \<lparr>tempm1 = 150, vtemp1 = 450, saltm1 = 1750, vsalt1 = 61250\<rparr>)"
  by (simp add: tracer_output_def Let_def np_sum_def cell_volume_def numeral_2_eq_2 numeral_3_eq_3
      upt_rec_numeral)

section \<open>Properties of the overturning diagnostic\<close>

lemma means_are_output: "set mean_variables \<subseteq> set (output_variables active)"
  by (simp add: mean_variables_def output_variables_def)

lemma ovt_output_means:
  assumes "0 < nitts s" and "v \<in> set mean_variables"
  shows "map_of (fst (ovt_output (output_variables active) s)) v
           = Some (\<lambda>i j. acc s v i j / real_of_int (nitts s))"
    and "acc (snd (ovt_output (output_variables active) s)) v = (\<lambda>i j. 0)"
    and "nitts (snd (ovt_output (output_variables active) s)) = 0"
  using assms
  by (auto simp: ovt_output_def Let_def mean_variables_def output_variables_def
      divide_by_nitts_def reset_var_def)

lemma ovt_output_bolus:
  assumes "v = Bolus_iso \<or> v = Bolus_depth"
  shows "map_of (fst (ovt_output (output_variables True) s)) v = Some (acc s v)"
    and "acc (snd (ovt_output (output_variables True) s)) v = acc s v"
  using assms
  by (auto simp: ovt_output_def Let_def mean_variables_def output_variables_def
      divide_by_nitts_def reset_var_def)

text \<open>
  Claim C8, on the code.  Two samples in which the kernel adds 1 everywhere to every
  variable, with the bolus variables active, and then \<open>output\<close>: \<open>trans\<close> is written as the mean
  1 and reset to 0, but \<open>bolus_iso\<close> and \<open>bolus_depth\<close> are written as the sum 2 and keep it,
  because \<open>mean_variables\<close> does not list them.
\<close>

theorem bolus_not_averaged:
  "nitts (diagnose True (\<lambda>v i j. 1) (diagnose True (\<lambda>v i j. 1) \<lparr>nitts = 0, acc = (\<lambda>v i j. 0)\<rparr>)) = 2
   \<and> map (\<lambda>(v, a). (v, a 2 0))
        (fst (ovt_output (output_variables True)
           (diagnose True (\<lambda>v i j. 1) (diagnose True (\<lambda>v i j. 1) \<lparr>nitts = 0, acc = (\<lambda>v i j. 0)\<rparr>))))
      = [(Trans, 1), (Vsf_iso, 1), (Vsf_depth, 1), (Bolus_iso, 2), (Bolus_depth, 2)]
   \<and> map (\<lambda>v. acc (snd (ovt_output (output_variables True)
           (diagnose True (\<lambda>v i j. 1) (diagnose True (\<lambda>v i j. 1) \<lparr>nitts = 0, acc = (\<lambda>v i j. 0)\<rparr>)))) v 2 0)
        [Trans, Vsf_iso, Vsf_depth, Bolus_iso, Bolus_depth]
      = [0, 0, 0, 2, 2]
   \<and> nitts (snd (ovt_output (output_variables True)
           (diagnose True (\<lambda>v i j. 1) (diagnose True (\<lambda>v i j. 1) \<lparr>nitts = 0, acc = (\<lambda>v i j. 0)\<rparr>)))) = 0"
  by (simp add: ovt_output_def Let_def mean_variables_def output_variables_def
      divide_by_nitts_def reset_var_def diagnose_def)

end
